theory Spec2Isabelle
  imports Main "HOL-Library.AList"
begin

section \<open>JavaScript values, errors and the schema interface\<close>

text \<open>
  Documents are JSON data. \<open>JNull\<close> stands for both \<open>null\<close> and \<open>undefined\<close>
  (the source tests them together with \<open>== null\<close>). Strings are sequences of code units
  below 256. An object is an association list in property insertion order.
\<close>

datatype json =
    JNull
  | JBool bool
  | JNum int
  | JStr string
  | JArr "json list"
  | JObj "(string \<times> json) list"

text \<open>Everything the source throws. \<open>Error\<close> is the plain JavaScript \<open>Error\<close>.\<close>

datatype error =
    DocumentValidationError string
  | CrossSlotError string
  | TypeError
  | MigrationError
  | Error string

text \<open>
  The schema object a collection is bound to. Its class lives in \<open>lib/Schema\<close>, whose
  source is not available; \<open>RedisSet.js\<close> uses exactly these members of it, so they are
  the fields.
  \<open>constructor_name\<close> is \<open>schema.constructor.name\<close>. \<open>upgrade\<close> returns \<open>None\<close> where the
  schema layer throws its migration error.
\<close>

record schema =
  constructor_name :: string
  schema_type :: string
  currentVersion :: int
  isValid :: "json \<Rightarrow> bool"
  errors :: "json \<Rightarrow> string"
  serializationFn :: "json \<Rightarrow> string"
  deserializationFn :: "string \<Rightarrow> json"
  upgrade :: "json \<Rightarrow> json option"

section \<open>The collection handle: constructor and key generation\<close>

text \<open>
  \<open>tance\<close> is a token for the injected store client; the store's contents are threaded
  separately as an explicit state.
\<close>

record redisset =
  tance :: nat
  set_id :: string
  set_schema :: schema
  namespace :: string
  expirySeconds :: "nat option"

text \<open>
  The constructor's argument object. A missing property is \<open>None\<close>.
\<close>

record ctor_args =
  arg_tance :: "nat option"
  arg_id :: "string option"
  arg_schema :: "schema option"
  arg_namespace :: "string option"
  arg_expirySeconds :: "nat option"

text \<open>\<open>String.prototype.toLowerCase\<close> on code units below 256.\<close>

definition lower_unit :: "char \<Rightarrow> char" where
  "lower_unit c =
     (let n = (of_char c :: nat)
      in if (65 \<le> n \<and> n \<le> 90) \<or> (192 \<le> n \<and> n \<le> 222 \<and> n \<noteq> 215)
         then char_of (n + 32) else c)"

definition toLowerCase :: "string \<Rightarrow> string" where
  "toLowerCase s = map lower_unit s"

text \<open>
  \<open>newKey\<close> reads \<open>this.schema\<close> and \<open>this.namespace\<close>, each possibly \<open>null\<close>, and the
  value \<open>u\<close> that \<open>uuid()\<close> returns in this call.
\<close>

definition newKey :: "schema option \<Rightarrow> string option \<Rightarrow> string \<Rightarrow> string" where
  "newKey sch ns u =
     (let type = (case sch of None \<Rightarrow> ''string''
                  | Some s \<Rightarrow> take 18 (toLowerCase (schema_type s)));
          namespace = (case ns of None \<Rightarrow> ''default'' | Some n \<Rightarrow> n)
      in ''set-{'' @ type @ ''-'' @ namespace @ ''}-'' @ u)"

text \<open>
  JavaScript's \<open>a || b\<close> on an optional string: the empty string is falsy too.
\<close>

definition or_string :: "string option \<Rightarrow> string \<Rightarrow> string" where
  "or_string a b = (case a of None \<Rightarrow> b | Some s \<Rightarrow> if s = [] then b else s)"

text \<open>
  The constructor. \<open>Schema_String\<close> is the library's \<open>Schema.String\<close> factory and \<open>u\<close> the
  value of \<open>uuid()\<close>; both are used only where the source evaluates them. The fields are
  assigned in the source's order, so \<open>newKey\<close> sees the schema and the namespace already
  defaulted.
\<close>

definition constructor ::
  "(nat option \<Rightarrow> schema) \<Rightarrow> string \<Rightarrow> ctor_args \<Rightarrow> error + redisset" where
  "constructor Schema_String u a =
     (case arg_tance a of
        None \<Rightarrow> Inl (DocumentValidationError ''Can't create document without a database'')
      | Some t \<Rightarrow>
          (let this_schema = (case arg_schema a of None \<Rightarrow> Schema_String (arg_expirySeconds a)
                              | Some s \<Rightarrow> s);
               this_namespace = or_string (arg_namespace a) [];
               this_id = or_string (arg_id a) (newKey (Some this_schema) (Some this_namespace) u)
           in Inr \<lparr> tance = t, set_id = this_id, set_schema = this_schema,
                    namespace = this_namespace, expirySeconds = arg_expirySeconds a \<rparr>))"

section \<open>The store client\<close>

text \<open>
  Modelled from the spec: the external KV client (\<open>lib/Tance\<close>), whose source is not
  available. The spec lists its commands and leaves their results to the store; the
  model is the store's set type held in memory: a key has a duplicate-free list of members
  (empty for an absent key) and an optional time to live, and every command issued is
  appended to \<open>log\<close>. Transport and server errors are outside the model: every command
  replies.
\<close>

datatype command =
    SADD string "string list"
  | SMEMBERS string
  | SRANDMEMBER string nat
  | SREM string string
  | SISMEMBER string string
  | SCARD string
  | SUNION "string list"
  | SUNIONSTORE string "string list"
  | SINTER "string list"
  | SINTERSTORE string "string list"
  | SDIFF "string list"
  | SDIFFSTORE string "string list"
  | DEL string
  | EXPIRE string nat

record store =
  sets :: "string \<Rightarrow> string list"
  ttl :: "string \<Rightarrow> nat option"
  log :: "command list"

definition issue :: "command \<Rightarrow> store \<Rightarrow> store" where
  "issue cmd st = st\<lparr> log := log st @ [cmd] \<rparr>"

fun insert_members :: "string list \<Rightarrow> string list \<Rightarrow> string list" where
  "insert_members [] xs = xs"
| "insert_members (m # ms) xs = insert_members ms (if m \<in> set xs then xs else xs @ [m])"

definition sadd :: "string \<Rightarrow> string list \<Rightarrow> store \<Rightarrow> store" where
  "sadd key ms st = (issue (SADD key ms) st)\<lparr> sets := (sets st)(key := insert_members ms (sets st key)) \<rparr>"

definition smembers :: "string \<Rightarrow> store \<Rightarrow> string list \<times> store" where
  "smembers key st = (sets st key, issue (SMEMBERS key) st)"

definition srandmember :: "string \<Rightarrow> nat \<Rightarrow> store \<Rightarrow> string list \<times> store" where
  "srandmember key n st = (take n (sets st key), issue (SRANDMEMBER key n) st)"

definition srem :: "string \<Rightarrow> string \<Rightarrow> store \<Rightarrow> store" where
  "srem key m st = (issue (SREM key m) st)\<lparr> sets := (sets st)(key := removeAll m (sets st key)) \<rparr>"

definition sismember :: "string \<Rightarrow> string \<Rightarrow> store \<Rightarrow> nat \<times> store" where
  "sismember key m st = ((if m \<in> set (sets st key) then 1 else 0), issue (SISMEMBER key m) st)"

definition scard :: "string \<Rightarrow> store \<Rightarrow> nat \<times> store" where
  "scard key st = (length (sets st key), issue (SCARD key) st)"

definition del :: "string \<Rightarrow> store \<Rightarrow> nat \<times> store" where
  "del key st =
     ((if sets st key = [] then 0 else 1),
      (issue (DEL key) st)\<lparr> sets := (sets st)(key := []), ttl := (ttl st)(key := None) \<rparr>)"

definition expire :: "string \<Rightarrow> nat \<Rightarrow> store \<Rightarrow> store" where
  "expire key n st =
     (if sets st key = [] then issue (EXPIRE key n) st
      else (issue (EXPIRE key n) st)\<lparr> ttl := (ttl st)(key := Some n) \<rparr>)"

fun union_members :: "store \<Rightarrow> string list \<Rightarrow> string list" where
  "union_members st [] = []"
| "union_members st (k # ks) = insert_members (union_members st ks) (sets st k)"

fun inter_members :: "store \<Rightarrow> string list \<Rightarrow> string list" where
  "inter_members st [] = []"
| "inter_members st (k # ks) = filter (\<lambda>m. \<forall>k' \<in> set ks. m \<in> set (sets st k')) (sets st k)"

fun diff_members :: "store \<Rightarrow> string list \<Rightarrow> string list" where
  "diff_members st [] = []"
| "diff_members st (k # ks) = filter (\<lambda>m. \<forall>k' \<in> set ks. m \<notin> set (sets st k')) (sets st k)"

definition store_at :: "command \<Rightarrow> string \<Rightarrow> string list \<Rightarrow> store \<Rightarrow> store" where
  "store_at cmd dest ms st =
     (issue cmd st)\<lparr> sets := (sets st)(dest := ms), ttl := (ttl st)(dest := None) \<rparr>"

definition sunion :: "string list \<Rightarrow> store \<Rightarrow> string list \<times> store" where
  "sunion keys st = (union_members st keys, issue (SUNION keys) st)"

definition sinter :: "string list \<Rightarrow> store \<Rightarrow> string list \<times> store" where
  "sinter keys st = (inter_members st keys, issue (SINTER keys) st)"

definition sdiff :: "string list \<Rightarrow> store \<Rightarrow> string list \<times> store" where
  "sdiff keys st = (diff_members st keys, issue (SDIFF keys) st)"

definition sunionstore :: "string \<Rightarrow> string list \<Rightarrow> store \<Rightarrow> store" where
  "sunionstore dest keys st = store_at (SUNIONSTORE dest keys) dest (union_members st keys) st"

definition sinterstore :: "string \<Rightarrow> string list \<Rightarrow> store \<Rightarrow> store" where
  "sinterstore dest keys st = store_at (SINTERSTORE dest keys) dest (inter_members st keys) st"

definition sdiffstore :: "string \<Rightarrow> string list \<Rightarrow> store \<Rightarrow> store" where
  "sdiffstore dest keys st = store_at (SDIFFSTORE dest keys) dest (diff_members st keys) st"

section \<open>Serialising and deserialising members\<close>

text \<open>\<open>xs.map(f)\<close> where \<open>f\<close> may throw: the first exception ends the map.\<close>

fun map_throwing :: "('a \<Rightarrow> error + 'b) \<Rightarrow> 'a list \<Rightarrow> error + 'b list" where
  "map_throwing f [] = Inr []"
| "map_throwing f (x # xs) =
     (case f x of
        Inl e \<Rightarrow> Inl e
      | Inr y \<Rightarrow> (case map_throwing f xs of Inl e \<Rightarrow> Inl e | Inr ys \<Rightarrow> Inr (y # ys)))"

definition refreshExpiry :: "redisset \<Rightarrow> store \<Rightarrow> store" where
  "refreshExpiry c st =
     (case expirySeconds c of
        None \<Rightarrow> st
      | Some n \<Rightarrow> if n = 0 then st else expire (set_id c) n st)"

text \<open>
  The first half of \<open>prepare\<close>, taken when the schema is a \<open>MigratingSchema\<close>: it writes
  \<open>id\<close>, \<open>type\<close> and \<open>version\<close> into the caller's document in place, so the result is the
  document as the caller sees it afterwards. Reading a property of \<open>null\<close> throws, and so
  does (in strict mode, which the file declares) creating a property on a boolean, number
  or string. Properties written on an array are not part of its JSON value, so an array
  comes back as it is.
\<close>

definition id_missing :: "(string \<times> json) list \<Rightarrow> bool" where
  "id_missing fs = (case map_of fs ''id'' of None \<Rightarrow> True | Some v \<Rightarrow> v = JNull \<or> v = JStr [])"

definition stamp :: "redisset \<Rightarrow> json \<Rightarrow> error + json" where
  "stamp c doc =
     (case doc of
        JObj fs \<Rightarrow>
          Inr (JObj (AList.update ''version'' (JNum (currentVersion (set_schema c)))
                    (AList.update ''type'' (JStr (schema_type (set_schema c)))
                    (if id_missing fs then AList.update ''id'' (JStr (set_id c)) fs else fs))))
      | JArr xs \<Rightarrow> Inr (JArr xs)
      | _ \<Rightarrow> Inl TypeError)"

text \<open>
  \<open>prepare\<close> returns the serialised member; the model pairs it with the document as the
  in-place writes left it.
\<close>

definition prepare :: "redisset \<Rightarrow> json \<Rightarrow> error + (json \<times> string)" where
  "prepare c doc =
     (case (if constructor_name (set_schema c) = ''MigratingSchema'' then stamp c doc
            else Inr doc) of
        Inl e \<Rightarrow> Inl e
      | Inr d \<Rightarrow>
          if \<not> isValid (set_schema c) d
          then Inl (DocumentValidationError
                 (''Can't create new object, schema error: '' @ errors (set_schema c) d))
          else Inr (d, serializationFn (set_schema c) d))"

text \<open>\<open>postpare\<close>: a \<open>null\<close> member is \<open>None\<close>, and comes back as \<open>JNull\<close>.\<close>

definition postpare :: "redisset \<Rightarrow> string option \<Rightarrow> error + json" where
  "postpare c serializedDoc =
     (case serializedDoc of
        None \<Rightarrow> Inr JNull
      | Some s \<Rightarrow>
          (let doc = deserializationFn (set_schema c) s
           in case upgrade (set_schema c) doc of
                None \<Rightarrow> Inl MigrationError
              | Some d \<Rightarrow> Inr d))"

section \<open>Members: add, read, remove\<close>

text \<open>
  An asynchronous method is a function from the store before the call to its outcome and
  the store after it: \<open>Inl\<close> is a rejected promise, \<open>Inr\<close> the resolved value.
\<close>

text \<open>The source's \<open>isIterable\<close>: on JSON data, exactly the arrays (a string has no \<open>map\<close>).\<close>

fun isIterable :: "json \<Rightarrow> bool" where
  "isIterable (JArr xs) = True"
| "isIterable _ = False"

fun elements :: "json \<Rightarrow> json list" where
  "elements (JArr xs) = xs"
| "elements _ = []"

text \<open>
  \<open>add\<close> up to the point where it awaits the reply to \<open>sadd\<close>: the document is checked
  and prepared and the command is issued, all before the caller gets control back. The
  value is the one \<open>add\<close> will return, its argument, the object \<open>prepare\<close> has written to:
  the document, or the array of documents, as those writes left it.
\<close>

definition add_started :: "redisset \<Rightarrow> json \<Rightarrow> store \<Rightarrow> (error + json) \<times> store" where
  "add_started c doc st =
     (if doc = JNull then (Inl (DocumentValidationError ''Can't create null object.''), st)
      else if isIterable doc then
          (case map_throwing (prepare c) (elements doc) of
             Inl e \<Rightarrow> (Inl e, st)
           | Inr ps \<Rightarrow> (Inr (JArr (map fst ps)), sadd (set_id c) (map snd ps) st))
      else
          (case prepare c doc of
             Inl e \<Rightarrow> (Inl e, st)
           | Inr (d, s) \<Rightarrow> (Inr d, sadd (set_id c) [s] st)))"

text \<open>\<open>add\<close>: after the reply, the expiry is refreshed and the argument returned.\<close>

definition add :: "redisset \<Rightarrow> json \<Rightarrow> store \<Rightarrow> (error + json) \<times> store" where
  "add c doc st =
     (case add_started c doc st of
        (Inl e, st1) \<Rightarrow> (Inl e, st1)
      | (Inr d, st1) \<Rightarrow> (Inr d, refreshExpiry c st1))"

definition members :: "redisset \<Rightarrow> store \<Rightarrow> (error + json list) \<times> store" where
  "members c st =
     (let (membs, st1) = smembers (set_id c) st
      in (map_throwing (\<lambda>x. postpare c (Some x)) membs, st1))"

definition randmember :: "redisset \<Rightarrow> nat \<Rightarrow> store \<Rightarrow> (error + json list) \<times> store" where
  "randmember c n st =
     (let (membs, st1) = srandmember (set_id c) n st
      in (map_throwing (\<lambda>x. postpare c (Some x)) membs, st1))"

definition rem :: "redisset \<Rightarrow> json \<Rightarrow> store \<Rightarrow> (error + json) \<times> store" where
  "rem c doc st =
     (case prepare c doc of
        Inl e \<Rightarrow> (Inl e, st)
      | Inr (d, s) \<Rightarrow> (Inr d, refreshExpiry c (srem (set_id c) s st)))"

definition delete_op :: "redisset \<Rightarrow> store \<Rightarrow> (error + nat) \<times> store" where
  "delete_op c st = (let (n, st1) = del (set_id c) st in (Inr n, st1))"

definition clear :: "redisset \<Rightarrow> store \<Rightarrow> (error + nat) \<times> store" where
  "clear c st = delete_op c st"

definition contains :: "redisset \<Rightarrow> json \<Rightarrow> store \<Rightarrow> (error + nat) \<times> store" where
  "contains c obj st =
     (case prepare c obj of
        Inl e \<Rightarrow> (Inl e, st)
      | Inr (d, s) \<Rightarrow> (let (n, st1) = sismember (set_id c) s st in (Inr n, st1)))"

definition has :: "redisset \<Rightarrow> json \<Rightarrow> store \<Rightarrow> (error + nat) \<times> store" where
  "has c obj st = contains c obj st"

definition count :: "redisset \<Rightarrow> json \<Rightarrow> store \<Rightarrow> (error + nat) \<times> store" where
  "count c obj st = (let (n, st1) = scard (set_id c) st in (Inr n, st1))"

definition get :: "redisset \<Rightarrow> store \<Rightarrow> (error + json list) \<times> store" where
  "get c st = members c st"

definition set_op :: "redisset \<Rightarrow> json \<Rightarrow> store \<Rightarrow> (error + json) \<times> store" where
  "set_op c doc st = add c doc st"

section \<open>modify\<close>

text \<open>
  A JavaScript \<open>Set\<close> compares its elements by SameValueZero: booleans, numbers and strings
  by value, objects and arrays by identity. A set element is therefore a JSON value paired
  with the identity of the object it is (ignored for a primitive), and a \<open>Set\<close> is the list
  of its elements in insertion order.
\<close>

fun isPrimitive :: "json \<Rightarrow> bool" where
  "isPrimitive (JArr xs) = False"
| "isPrimitive (JObj fs) = False"
| "isPrimitive _ = True"

definition sameValueZero :: "'i \<times> json \<Rightarrow> 'i \<times> json \<Rightarrow> bool" where
  "sameValueZero a b =
     (if isPrimitive (snd a) then snd a = snd b
      else \<not> isPrimitive (snd b) \<and> fst a = fst b)"

definition Set_has :: "('i \<times> json) list \<Rightarrow> 'i \<times> json \<Rightarrow> bool" where
  "Set_has s x = (\<exists>y \<in> set s. sameValueZero y x)"

fun new_Set :: "('i \<times> json) list \<Rightarrow> ('i \<times> json) list" where
  "new_Set [] = []"
| "new_Set (x # xs) = x # filter (\<lambda>y. \<not> sameValueZero x y) (new_Set xs)"

record modify_result =
  original :: "((nat + nat) \<times> json) list"
  changed :: "((nat + nat) \<times> json) list"

text \<open>
  What a call of \<open>prepare\<close> leaves of its argument, whether it returns or throws: under a
  version-aware schema the three fields are written before the validation. \<open>add\<close> on an
  array prepares the elements in turn up to the first that throws.
\<close>

definition written_by_prepare :: "redisset \<Rightarrow> json \<Rightarrow> json" where
  "written_by_prepare c doc =
     (if constructor_name (set_schema c) = ''MigratingSchema''
      then (case stamp c doc of Inl e \<Rightarrow> doc | Inr d \<Rightarrow> d)
      else doc)"

fun written_by_map :: "redisset \<Rightarrow> json list \<Rightarrow> json list" where
  "written_by_map c [] = []"
| "written_by_map c (x # xs) =
     written_by_prepare c x
       # (case prepare c x of Inl e \<Rightarrow> xs | Inr p \<Rightarrow> written_by_map c xs)"

definition written_by_add :: "redisset \<Rightarrow> json \<Rightarrow> json" where
  "written_by_add c doc =
     (if doc = JNull then doc
      else if isIterable doc then JArr (written_by_map c (elements doc))
      else written_by_prepare c doc)"

text \<open>
  \<open>modify\<close>. The documents \<open>members\<close> returns are fresh objects, identified here by
  \<open>Inl\<close> of their position; the JSON round trip of \<open>copyList\<close> yields equal values in
  objects of their own, which \<open>changeFn\<close> sees under the identities \<open>0, 1, \<dots>\<close> and which
  appear as \<open>Inr\<close> beside the originals. \<open>changeFn\<close> may return those objects or others of
  its own; it cannot return an original, which it never sees.

  The two arrow functions have a block body without \<open>return\<close>, so \<open>promises\<close> holds
  \<open>undefined\<close> only: each \<open>rem\<close> and \<open>add\<close> is started and its outcome is dropped, and
  \<open>Promise.all\<close> has nothing to wait for. A call runs until it first waits for a reply.
  \<open>rem\<close> awaits nothing before its \<open>expire\<close>, so each \<open>rem\<close> issues its \<open>srem\<close> and
  its \<open>expire\<close> at once. \<open>add\<close> awaits the reply to its \<open>sadd\<close>, so every \<open>sadd\<close> is
  issued first, then the \<open>expire\<close> of \<open>modify\<close> itself, and the \<open>expire\<close> of each
  \<open>add\<close> that was not rejected follows when its reply has come. The store serves the
  commands in the order they are issued; the store returned is the one after all of them.

  The sets in the result are the two \<open>Set\<close> objects. Their elements that went through
  \<open>rem\<close> or \<open>add\<close> are the objects \<open>prepare\<close> has written to.
\<close>

definition modify ::
  "redisset \<Rightarrow> ((nat \<times> json) list \<Rightarrow> (nat \<times> json) list) \<Rightarrow> store
     \<Rightarrow> (error + modify_result) \<times> store" where
  "modify c changeFn st =
     (case members c st of
        (Inl e, st1) \<Rightarrow> (Inl e, st1)
      | (Inr list, st1) \<Rightarrow>
          (let copyList = list;
               originalSet = new_Set (map (\<lambda>(i, d). (Inl i, d)) (enumerate 0 list));
               working = new_Set (enumerate 0 copyList);
               newSet = map (\<lambda>(i, d). (Inr i, d)) (new_Set (changeFn working));
               itemsToRemove = filter (\<lambda>x. \<not> Set_has newSet x) originalSet;
               itemsToAdd = filter (\<lambda>x. \<not> Set_has originalSet x) newSet;
               st2 = fold (\<lambda>itemToRemove s. snd (rem c (snd itemToRemove) s)) itemsToRemove st1;
               st3 = fold (\<lambda>itemToAdd s. snd (add_started c (snd itemToAdd) s)) itemsToAdd st2;
               st4 = refreshExpiry c st3;
               st5 = fold (\<lambda>itemToAdd s.
                             case fst (add_started c (snd itemToAdd) s) of
                               Inl e \<Rightarrow> s
                             | Inr d \<Rightarrow> refreshExpiry c s) itemsToAdd st4
           in (Inr \<lparr> original =
                        map (\<lambda>x. if Set_has newSet x then x
                                  else (fst x, written_by_prepare c (snd x))) originalSet,
                      changed =
                        map (\<lambda>x. if Set_has originalSet x then x
                                  else (fst x, written_by_add c (snd x))) newSet \<rparr>,
               st5)))"

section \<open>Group operations\<close>

text \<open>An operand of a group operation: a raw key or another collection handle.\<close>

datatype operand = Key string | Handle redisset

definition validateSetId :: "redisset \<Rightarrow> operand \<Rightarrow> error + string" where
  "validateSetId c setId =
     (case setId of
        Key k \<Rightarrow> Inr k
      | Handle s \<Rightarrow>
          if namespace s \<noteq> namespace c
          then Inl (CrossSlotError ''Trying to perform a group operation (union/intersect/diff) on RedisSets from different namespaces; this would throw a CROSSLOT error on prod'')
          else if schema_type (set_schema s) \<noteq> schema_type (set_schema c)
          then Inl (CrossSlotError ''Trying to perform a group operation (union/intersect/diff) on RedisSets from different schema types; this would throw a CROSSSLOT error on prod'')
          else Inr (set_id s))"

definition validateSetIds :: "redisset \<Rightarrow> operand list \<Rightarrow> error + string list" where
  "validateSetIds c setIds = map_throwing (validateSetId c) setIds"

text \<open>
  The handle the \<open>Store\<close> variants build: \<open>new RedisSet\<close> with this collection's client,
  schema, namespace and expiry, and with or without an id.
\<close>

definition sibling ::
  "(nat option \<Rightarrow> schema) \<Rightarrow> string \<Rightarrow> redisset \<Rightarrow> string option \<Rightarrow> error + redisset" where
  "sibling Schema_String u c i =
     constructor Schema_String u
       \<lparr> arg_tance = Some (tance c), arg_id = i, arg_schema = Some (set_schema c),
         arg_namespace = Some (namespace c), arg_expirySeconds = expirySeconds c \<rparr>"

text \<open>
  The three read variants and the six storing variants differ in the store command only.
  The arguments of the command are evaluated, and so \<open>validateSetIds\<close> runs, before the
  command is called.
\<close>

definition group_read ::
  "(string list \<Rightarrow> store \<Rightarrow> string list \<times> store) \<Rightarrow> redisset \<Rightarrow> operand list \<Rightarrow> store
     \<Rightarrow> (error + json list) \<times> store" where
  "group_read cmd c setIds st =
     (case validateSetIds c setIds of
        Inl e \<Rightarrow> (Inl e, st)
      | Inr ks \<Rightarrow>
          (let (res, st1) = cmd (set_id c # ks) st
           in (map_throwing (\<lambda>x. postpare c (Some x)) res, st1)))"

definition group_store ::
  "(string \<Rightarrow> string list \<Rightarrow> store \<Rightarrow> store) \<Rightarrow> (nat option \<Rightarrow> schema) \<Rightarrow> string
     \<Rightarrow> redisset \<Rightarrow> string option \<Rightarrow> operand list \<Rightarrow> store \<Rightarrow> (error + redisset) \<times> store" where
  "group_store cmd Schema_String u c i setIds st =
     (case sibling Schema_String u c i of
        Inl e \<Rightarrow> (Inl e, st)
      | Inr newSet \<Rightarrow>
          (case validateSetIds c setIds of
             Inl e \<Rightarrow> (Inl e, st)
           | Inr ks \<Rightarrow> (Inr newSet, cmd (set_id newSet) (set_id c # ks) st)))"

definition union_op :: "redisset \<Rightarrow> operand list \<Rightarrow> store \<Rightarrow> (error + json list) \<times> store" where
  "union_op = group_read sunion"

definition unionStore ::
  "(nat option \<Rightarrow> schema) \<Rightarrow> string \<Rightarrow> redisset \<Rightarrow> operand list \<Rightarrow> store
     \<Rightarrow> (error + redisset) \<times> store" where
  "unionStore Schema_String u c = group_store sunionstore Schema_String u c None"

definition unionStoreAt ::
  "(nat option \<Rightarrow> schema) \<Rightarrow> string \<Rightarrow> redisset \<Rightarrow> string \<Rightarrow> operand list \<Rightarrow> store
     \<Rightarrow> (error + redisset) \<times> store" where
  "unionStoreAt Schema_String u c i = group_store sunionstore Schema_String u c (Some i)"

definition intersect :: "redisset \<Rightarrow> operand list \<Rightarrow> store \<Rightarrow> (error + json list) \<times> store" where
  "intersect = group_read sinter"

definition intersectStore ::
  "(nat option \<Rightarrow> schema) \<Rightarrow> string \<Rightarrow> redisset \<Rightarrow> operand list \<Rightarrow> store
     \<Rightarrow> (error + redisset) \<times> store" where
  "intersectStore Schema_String u c = group_store sinterstore Schema_String u c None"

definition intersectStoreAt ::
  "(nat option \<Rightarrow> schema) \<Rightarrow> string \<Rightarrow> redisset \<Rightarrow> string \<Rightarrow> operand list \<Rightarrow> store
     \<Rightarrow> (error + redisset) \<times> store" where
  "intersectStoreAt Schema_String u c i = group_store sinterstore Schema_String u c (Some i)"

definition copyTo ::
  "(nat option \<Rightarrow> schema) \<Rightarrow> string \<Rightarrow> redisset \<Rightarrow> string \<Rightarrow> store
     \<Rightarrow> (error + redisset) \<times> store" where
  "copyTo Schema_String u c i st =
     (case sibling Schema_String u c (Some i) of
        Inl e \<Rightarrow> (Inl e, st)
      | Inr newSet \<Rightarrow> (Inr newSet, sinterstore (set_id newSet) [set_id c] st))"

definition diff :: "redisset \<Rightarrow> operand list \<Rightarrow> store \<Rightarrow> (error + json list) \<times> store" where
  "diff = group_read sdiff"

definition diffStore ::
  "(nat option \<Rightarrow> schema) \<Rightarrow> string \<Rightarrow> redisset \<Rightarrow> operand list \<Rightarrow> store
     \<Rightarrow> (error + redisset) \<times> store" where
  "diffStore Schema_String u c = group_store sdiffstore Schema_String u c None"

definition diffStoreAt ::
  "(nat option \<Rightarrow> schema) \<Rightarrow> string \<Rightarrow> redisset \<Rightarrow> string \<Rightarrow> operand list \<Rightarrow> store
     \<Rightarrow> (error + redisset) \<times> store" where
  "diffStoreAt Schema_String u c i = group_store sdiffstore Schema_String u c (Some i)"

definition onion :: "redisset \<Rightarrow> operand list \<Rightarrow> store \<Rightarrow> (error + json list) \<times> store" where
  "onion c setIds st = (Inl (Error ''Onion error''), st)"

section \<open>The schema chain\<close>

text \<open>
  Modelled from the spec: the schema chain (\<open>lib/Schema\<close>, the class the tests call
  \<open>Skeema\<close>), of which only a test is available. A version is a schema
  definition, taken here as the validator's verdict on a document, and the upgrade function
  from the version before; its version number is its position in the chain, counted from 1.
\<close>

record schema_version =
  validates :: "json \<Rightarrow> bool"
  upgradeFn :: "json \<Rightarrow> json"

record skeema =
  chain_type :: string
  versions :: "schema_version list"

definition chain_currentVersion :: "skeema \<Rightarrow> int" where
  "chain_currentVersion ch = int (length (versions ch))"

definition addVersion :: "skeema \<Rightarrow> (json \<Rightarrow> bool) \<Rightarrow> (json \<Rightarrow> json) \<Rightarrow> skeema" where
  "addVersion ch d f = ch\<lparr> versions := versions ch @ [\<lparr> validates = d, upgradeFn = f \<rparr>] \<rparr>"

text \<open>The \<open>version\<close> field of a document, when it has one that is a number.\<close>

definition version_of :: "json \<Rightarrow> int option" where
  "version_of doc =
     (case doc of
        JObj fs \<Rightarrow> (case map_of fs ''version'' of Some (JNum v) \<Rightarrow> Some v | _ \<Rightarrow> None)
      | _ \<Rightarrow> None)"

text \<open>
  \<open>isValid\<close>: against the version the document names, the latest when it names none;
  a version outside the chain validates nothing.
\<close>

definition chain_isValid :: "skeema \<Rightarrow> json \<Rightarrow> bool" where
  "chain_isValid ch doc =
     (case version_of doc of
        None \<Rightarrow> versions ch \<noteq> [] \<and> validates (last (versions ch)) doc
      | Some v \<Rightarrow>
          1 \<le> v \<and> v \<le> chain_currentVersion ch \<and> validates (versions ch ! nat (v - 1)) doc)"

text \<open>Stamping the version after a step; only an object can carry the field.\<close>

definition set_version :: "int \<Rightarrow> json \<Rightarrow> json option" where
  "set_version v doc =
     (case doc of
        JObj fs \<Rightarrow> Some (JObj (AList.update ''version'' (JNum v) fs))
      | _ \<Rightarrow> None)"

text \<open>
  \<open>upgrade\<close>: from a document at version \<open>v\<close>, apply the upgrade function of each later
  version in turn, stamp the version after each step and validate the output against the
  version reached. \<open>None\<close> is the migration error: the version absent, below 1 or beyond the
  current one, or an output that fails validation.
\<close>

fun upgrade_steps :: "schema_version list \<Rightarrow> int \<Rightarrow> json \<Rightarrow> json option" where
  "upgrade_steps [] v doc = Some doc"
| "upgrade_steps (sv # svs) v doc =
     (case set_version (v + 1) (upgradeFn sv doc) of
        None \<Rightarrow> None
      | Some d \<Rightarrow> if validates sv d then upgrade_steps svs (v + 1) d else None)"

definition chain_upgrade :: "skeema \<Rightarrow> json \<Rightarrow> json option" where
  "chain_upgrade ch doc =
     (case version_of doc of
        None \<Rightarrow> None
      | Some v \<Rightarrow>
          if v < 1 \<or> chain_currentVersion ch < v then None
          else upgrade_steps (drop (nat v) (versions ch)) v doc)"


text \<open>
  The chain as the schema object a collection holds; the text encoding and the diagnostic
  text are the chain's own and are taken as given.
\<close>

definition MigratingSchema ::
  "skeema \<Rightarrow> (json \<Rightarrow> string) \<Rightarrow> (json \<Rightarrow> string) \<Rightarrow> (string \<Rightarrow> json) \<Rightarrow> schema" where
  "MigratingSchema ch err ser de =
     \<lparr> constructor_name = ''MigratingSchema'', schema_type = chain_type ch,
       currentVersion = chain_currentVersion ch, isValid = chain_isValid ch, errors = err,
       serializationFn = ser, deserializationFn = de, upgrade = chain_upgrade ch \<rparr>"

section \<open>Vocabulary of the properties\<close>

text \<open>
  An operand that a group operation must refuse: a handle whose namespace or schema type
  is not this collection's. A raw key is never refused.
\<close>

definition mismatched :: "redisset \<Rightarrow> operand \<Rightarrow> bool" where
  "mismatched c x =
     (case x of
        Key k \<Rightarrow> False
      | Handle s \<Rightarrow> namespace s \<noteq> namespace c
                    \<or> schema_type (set_schema s) \<noteq> schema_type (set_schema c))"

definition operand_key :: "operand \<Rightarrow> string" where
  "operand_key x = (case x of Key k \<Rightarrow> k | Handle s \<Rightarrow> set_id s)"

fun is_CrossSlotError :: "error + 'a \<Rightarrow> bool" where
  "is_CrossSlotError (Inl (CrossSlotError m)) = True"
| "is_CrossSlotError _ = False"

text \<open>An outcome that is a CrossSlotError and has left the store, its log included, as it was.\<close>

definition cross_slot_refused :: "(error + 'a) \<times> store \<Rightarrow> store \<Rightarrow> bool" where
  "cross_slot_refused r st = (is_CrossSlotError (fst r) \<and> snd r = st)"


text \<open>
  The outcome of a read is at the latest version of a chain when every document it returns
  carries the chain's current version; a failed read returns no document.
\<close>

definition all_latest :: "skeema \<Rightarrow> (error + json list) \<times> store \<Rightarrow> bool" where
  "all_latest ch r =
     (case fst r of
        Inl e \<Rightarrow> True
      | Inr docs \<Rightarrow> list_all (\<lambda>d. version_of d = Some (chain_currentVersion ch)) docs)"

text \<open>
  The documents \<open>add\<close> prepares: the elements of an array, or the one document. For one of
  them: whether \<open>prepare\<close> returns, whether it throws the validation error, the document
  as \<open>prepare\<close> leaves it and the member it serialises to.
\<close>

definition docs_of :: "json \<Rightarrow> json list" where
  "docs_of doc = (if isIterable doc then elements doc else [doc])"

definition prepared :: "redisset \<Rightarrow> json \<Rightarrow> bool" where
  "prepared c x = (case prepare c x of Inl e \<Rightarrow> False | Inr p \<Rightarrow> True)"

definition fails_validation :: "redisset \<Rightarrow> json \<Rightarrow> bool" where
  "fails_validation c x =
     (case prepare c x of Inl (DocumentValidationError m) \<Rightarrow> True | _ \<Rightarrow> False)"

definition written :: "redisset \<Rightarrow> json \<Rightarrow> json" where
  "written c x = (case prepare c x of Inl e \<Rightarrow> x | Inr p \<Rightarrow> fst p)"

definition member_of :: "redisset \<Rightarrow> json \<Rightarrow> string" where
  "member_of c x = (case prepare c x of Inl e \<Rightarrow> [] | Inr p \<Rightarrow> snd p)"

text \<open>The commands \<open>refreshExpiry\<close> issues: one \<open>expire\<close> when an expiry is set and not zero.\<close>

definition expiry_commands :: "redisset \<Rightarrow> command list" where
  "expiry_commands c =
     (case expirySeconds c of
        None \<Rightarrow> []
      | Some n \<Rightarrow> if n = 0 then [] else [EXPIRE (set_id c) n])"

section \<open>Example schemas, collections and stores\<close>

text \<open>A schema of plain strings, stored as they are; it is not version-aware.\<close>

definition text_schema :: schema where
  "text_schema =
     \<lparr> constructor_name = ''Schema'', schema_type = ''string'', currentVersion = 0,
       isValid = (\<lambda>d. case d of JStr s \<Rightarrow> True | _ \<Rightarrow> False),
       errors = (\<lambda>d. ''should be string''),
       serializationFn = (\<lambda>d. case d of JStr s \<Rightarrow> s | _ \<Rightarrow> []),
       deserializationFn = JStr,
       upgrade = Some \<rparr>"

text \<open>A \<open>Schema.String\<close> factory for the examples: it hands out the schema of plain strings.\<close>

definition plain_strings :: "nat option \<Rightarrow> schema" where
  "plain_strings e = text_schema"

text \<open>
  The chain of the test \<open>Upgrading schema\<close>: version 1 requires \<open>firstname\<close> and
  \<open>lastname\<close>, version 2 allows an integer \<open>salary\<close> and its upgrade sets it to 30000,
  version 3 requires \<open>fullname\<close> and its upgrade computes it.
\<close>

definition is_string :: "json option \<Rightarrow> bool" where
  "is_string v = (case v of Some (JStr s) \<Rightarrow> True | _ \<Rightarrow> False)"

definition opt_integer :: "json option \<Rightarrow> bool" where
  "opt_integer v = (case v of None \<Rightarrow> True | Some (JNum n) \<Rightarrow> True | _ \<Rightarrow> False)"

definition opt_string :: "json option \<Rightarrow> bool" where
  "opt_string v = (case v of None \<Rightarrow> True | Some (JStr s) \<Rightarrow> True | _ \<Rightarrow> False)"

definition employeeV1 :: "json \<Rightarrow> bool" where
  "employeeV1 d =
     (case d of
        JObj fs \<Rightarrow> is_string (map_of fs ''firstname'') \<and> is_string (map_of fs ''lastname'')
      | _ \<Rightarrow> False)"

definition employeeV2 :: "json \<Rightarrow> bool" where
  "employeeV2 d =
     (case d of
        JObj fs \<Rightarrow> is_string (map_of fs ''firstname'') \<and> is_string (map_of fs ''lastname'')
                   \<and> opt_integer (map_of fs ''salary'')
      | _ \<Rightarrow> False)"

definition employeeV3 :: "json \<Rightarrow> bool" where
  "employeeV3 d =
     (case d of
        JObj fs \<Rightarrow> is_string (map_of fs ''firstname'') \<and> is_string (map_of fs ''lastname'')
                   \<and> opt_integer (map_of fs ''salary'') \<and> is_string (map_of fs ''fullname'')
      | _ \<Rightarrow> False)"

text \<open>
  The text a template literal gives a property: \<open>undefined\<close> for a missing one, and
  JavaScript's string conversion of the value otherwise.
\<close>

fun decimal :: "nat \<Rightarrow> string" where
  "decimal n = (if n < 10 then [char_of (48 + n)] else decimal (n div 10) @ [char_of (48 + n mod 10)])"

fun join_comma :: "string list \<Rightarrow> string" where
  "join_comma [] = []"
| "join_comma [x] = x"
| "join_comma (x # y # ys) = x @ '','' @ join_comma (y # ys)"

fun js_String :: "json \<Rightarrow> string" where
  "js_String JNull = ''null''"
| "js_String (JBool b) = (if b then ''true'' else ''false'')"
| "js_String (JNum n) = (if n < 0 then ''-'' @ decimal (nat (- n)) else decimal (nat n))"
| "js_String (JStr s) = s"
| "js_String (JArr xs) = join_comma (map (\<lambda>x. if x = JNull then [] else js_String x) xs)"
| "js_String (JObj fs) = ''[object Object]''"

definition template_text :: "json option \<Rightarrow> string" where
  "template_text v = (case v of None \<Rightarrow> ''undefined'' | Some x \<Rightarrow> js_String x)"

definition to_v2 :: "json \<Rightarrow> json" where
  "to_v2 d = (case d of JObj fs \<Rightarrow> JObj (AList.update ''salary'' (JNum 30000) fs) | _ \<Rightarrow> d)"

definition to_v3 :: "json \<Rightarrow> json" where
  "to_v3 d =
     (case d of
        JObj fs \<Rightarrow>
          JObj (AList.update ''fullname''
                  (JStr (template_text (map_of fs ''firstname'') @ '' ''
                         @ template_text (map_of fs ''lastname''))) fs)
      | _ \<Rightarrow> d)"

definition employeeSchema :: skeema where
  "employeeSchema =
     addVersion (addVersion (addVersion \<lparr> chain_type = ''employee'', versions = [] \<rparr>
       employeeV1 (\<lambda>x. x)) employeeV2 to_v2) employeeV3 to_v3"

definition validEmployee :: json where
  "validEmployee =
     JObj [(''version'', JNum 1), (''firstname'', JStr ''Charles''),
           (''lastname'', JStr ''Huckbreimer'')]"

definition upgradedEmployee :: json where
  "upgradedEmployee =
     JObj [(''version'', JNum 3), (''firstname'', JStr ''Charles''),
           (''lastname'', JStr ''Huckbreimer''), (''salary'', JNum 30000),
           (''fullname'', JStr ''Charles Huckbreimer'')]"

text \<open>
  A text encoding for the employee collection of the examples: the one member written at
  version 1 that the example store holds, and a constant for any other document.
\<close>

definition employee_ser :: "json \<Rightarrow> string" where
  "employee_ser d = (if d = validEmployee then ''charles@1'' else ''employee'')"

definition employee_de :: "string \<Rightarrow> json" where
  "employee_de s = (if s = ''charles@1'' then validEmployee else JObj [])"

definition employee_schema :: schema where
  "employee_schema =
     MigratingSchema employeeSchema (\<lambda>d. ''invalid employee'') employee_ser employee_de"

definition empty_store :: store where
  "empty_store = \<lparr> sets = (\<lambda>k. []), ttl = (\<lambda>k. None), log = [] \<rparr>"

definition names :: redisset where
  "names = \<lparr> tance = 0, set_id = ''names'', set_schema = text_schema, namespace = ''ns1'',
             expirySeconds = Some 60 \<rparr>"

definition staff :: redisset where
  "staff = \<lparr> tance = 0, set_id = ''staff'', set_schema = employee_schema,
             namespace = ''ns1'', expirySeconds = None \<rparr>"

definition staff_ns2 :: redisset where
  "staff_ns2 = \<lparr> tance = 0, set_id = ''staff2'', set_schema = employee_schema,
                 namespace = ''ns2'', expirySeconds = None \<rparr>"

text \<open>A store in which the employee collection holds one member, written at version 1.\<close>

definition staff_store :: store where
  "staff_store =
     \<lparr> sets = (\<lambda>k. if k = ''staff'' then [''charles@1''] else []), ttl = (\<lambda>k. None),
       log = [] \<rparr>"

text \<open>An employee as a caller hands it to \<open>add\<close>, and as \<open>prepare\<close> leaves it.\<close>

definition newEmployee :: json where
  "newEmployee =
     JObj [(''firstname'', JStr ''Charles''), (''lastname'', JStr ''Huckbreimer''),
           (''fullname'', JStr ''Charles Huckbreimer'')]"

definition stampedEmployee :: json where
  "stampedEmployee =
     JObj [(''firstname'', JStr ''Charles''), (''lastname'', JStr ''Huckbreimer''),
           (''fullname'', JStr ''Charles Huckbreimer''), (''id'', JStr ''staff''),
           (''type'', JStr ''employee''), (''version'', JNum 3)]"

text \<open>
  A store in which the collection of names holds one member, and a transform that puts the
  number 5, which the schema of plain strings rejects, into the working set.
\<close>

definition alice_store :: store where
  "alice_store =
     \<lparr> sets = (\<lambda>k. if k = ''names'' then [''alice''] else []), ttl = (\<lambda>k. None), log = [] \<rparr>"

definition add_five :: "(nat \<times> json) list \<Rightarrow> (nat \<times> json) list" where
  "add_five s = s @ [(length s, JNum 5)]"


text \<open>
  A payroll collection bound to the chain of three versions, whose key holds one member
  that \<open>add\<close> wrote when the chain had its first version only; that member as stored and as
  \<open>members\<close> returns it now. The text encoding is the collection's own: the old member, and
  a constant for any other document.
\<close>

definition storedPayrollEmployee :: json where
  "storedPayrollEmployee =
     JObj [(''firstname'', JStr ''Charles''), (''lastname'', JStr ''Huckbreimer''),
           (''id'', JStr ''payroll''), (''type'', JStr ''employee''), (''version'', JNum 1)]"

definition payrollEmployee :: json where
  "payrollEmployee =
     JObj [(''firstname'', JStr ''Charles''), (''lastname'', JStr ''Huckbreimer''),
           (''id'', JStr ''payroll''), (''type'', JStr ''employee''), (''version'', JNum 3),
           (''salary'', JNum 30000), (''fullname'', JStr ''Charles Huckbreimer'')]"

definition payroll_ser :: "json \<Rightarrow> string" where
  "payroll_ser d = (if d = storedPayrollEmployee then ''charles@1'' else ''charles@3'')"

definition payroll_de :: "string \<Rightarrow> json" where
  "payroll_de s = (if s = ''charles@1'' then storedPayrollEmployee else JObj [])"

definition payroll :: redisset where
  "payroll =
     \<lparr> tance = 0, set_id = ''payroll'',
       set_schema = MigratingSchema employeeSchema (\<lambda>d. ''invalid employee'')
                      payroll_ser payroll_de,
       namespace = ''ns1'', expirySeconds = None \<rparr>"

definition payroll_store :: store where
  "payroll_store =
     \<lparr> sets = (\<lambda>k. if k = ''payroll'' then [''charles@1''] else []), ttl = (\<lambda>k. None),
       log = [] \<rparr>"

text \<open>The upgraded employee of the staff collection as \<open>prepare\<close> leaves it.\<close>

definition stampedUpgradedEmployee :: json where
  "stampedUpgradedEmployee =
     JObj [(''version'', JNum 3), (''firstname'', JStr ''Charles''),
           (''lastname'', JStr ''Huckbreimer''), (''salary'', JNum 30000),
           (''fullname'', JStr ''Charles Huckbreimer''), (''id'', JStr ''staff''),
           (''type'', JStr ''employee'')]"

section \<open>Key generation\<close>

text \<open>
  C1. A collection constructed without an id and without a namespace gets the key
  \<open>set-{<type>-}-<suffix>\<close>, the type lower-cased and cut to 18 characters: the constructor
  has replaced the missing namespace by the empty string before \<open>newKey\<close> runs, so the
  \<open>default\<close> that \<open>newKey\<close> holds ready for a missing namespace is never used.
\<close>

theorem constructor_without_namespace_key:
  "constructor Schema_String u
     \<lparr> arg_tance = Some t, arg_id = None, arg_schema = Some s,
       arg_namespace = None, arg_expirySeconds = e \<rparr>
   = Inr \<lparr> tance = t,
           set_id = ''set-{'' @ take 18 (toLowerCase (schema_type s)) @ ''-}-'' @ u,
           set_schema = s, namespace = [], expirySeconds = e \<rparr>"
  by (simp add: constructor_def or_string_def newKey_def)

lemma constructor_supplied_namespace_key:
  "ns \<noteq> [] \<Longrightarrow>
   constructor Schema_String u
     \<lparr> arg_tance = Some t, arg_id = None, arg_schema = Some s,
       arg_namespace = Some ns, arg_expirySeconds = e \<rparr>
   = Inr \<lparr> tance = t,
           set_id = ''set-{'' @ take 18 (toLowerCase (schema_type s)) @ ''-'' @ ns @ ''}-'' @ u,
           set_schema = s, namespace = ns, expirySeconds = e \<rparr>"
  by (simp add: constructor_def or_string_def newKey_def)

lemma constructor_employee_key:
  "constructor Schema_String ''4f1c''
     \<lparr> arg_tance = Some 0, arg_id = None, arg_schema = Some employee_schema,
       arg_namespace = None, arg_expirySeconds = None \<rparr>
   = Inr \<lparr> tance = 0, set_id = ''set-{employee-}-4f1c'', set_schema = employee_schema,
           namespace = [], expirySeconds = None \<rparr>"
  by (simp add: constructor_def or_string_def newKey_def employee_schema_def
      MigratingSchema_def employeeSchema_def addVersion_def toLowerCase_def lower_unit_def)

section \<open>Exceptions inside a map\<close>

lemma map_throwing_Inl:
  "map_throwing f xs = Inl e \<Longrightarrow> \<exists>x \<in> set xs. f x = Inl e"
  by (induction xs arbitrary: e) (auto split: sum.splits)

lemma map_throwing_Inr:
  "map_throwing f xs = Inr ys \<Longrightarrow> list_all2 (\<lambda>x y. f x = Inr y) xs ys"
  by (induction xs arbitrary: ys) (auto split: sum.splits)

lemma map_throwing_all_Inr:
  "\<forall>x \<in> set xs. f x = Inr (g x) \<Longrightarrow> map_throwing f xs = Inr (map g xs)"
  by (induction xs) auto

lemma map_throwing_some_Inl:
  "\<exists>x \<in> set xs. \<exists>e. f x = Inl e \<Longrightarrow> \<exists>e. map_throwing f xs = Inl e"
proof (induction xs)
  case Nil
  then show ?case by simp
next
  case (Cons a xs)
  show ?case
  proof (cases "f a")
    case (Inl e)
    then show ?thesis by simp
  next
    case (Inr y)
    with Cons.prems have "\<exists>x \<in> set xs. \<exists>e. f x = Inl e" by auto
    then obtain e where "map_throwing f xs = Inl e" using Cons.IH by blast
    with Inr show ?thesis by simp
  qed
qed

lemma validateSetId_mismatched:
  "mismatched c x \<Longrightarrow> \<exists>m. validateSetId c x = Inl (CrossSlotError m)"
  by (auto simp: validateSetId_def mismatched_def split: operand.splits)

lemma validateSetId_matched:
  "\<not> mismatched c x \<Longrightarrow> validateSetId c x = Inr (operand_key x)"
  by (auto simp: validateSetId_def mismatched_def operand_key_def split: operand.splits)

lemma validateSetId_error:
  "validateSetId c x = Inl e \<Longrightarrow> \<exists>m. e = CrossSlotError m"
  by (auto simp: validateSetId_def split: operand.splits if_splits)

lemma validateSetIds_mismatched:
  assumes "\<exists>x \<in> set setIds. mismatched c x"
  shows "\<exists>m. validateSetIds c setIds = Inl (CrossSlotError m)"
proof -
  from assms obtain x where x: "x \<in> set setIds" "mismatched c x" by auto
  then obtain m where "validateSetId c x = Inl (CrossSlotError m)"
    using validateSetId_mismatched [of c x] by auto
  with x have "\<exists>x \<in> set setIds. \<exists>e. validateSetId c x = Inl e" by auto
  then obtain e where e: "map_throwing (validateSetId c) setIds = Inl e"
    using map_throwing_some_Inl [of setIds "validateSetId c"] by auto
  then obtain y where "validateSetId c y = Inl e"
    using map_throwing_Inl [of "validateSetId c" setIds e] by auto
  then obtain m' where "e = CrossSlotError m'"
    using validateSetId_error [of c y e] by auto
  with e show ?thesis by (simp add: validateSetIds_def)
qed

lemma validateSetIds_matched:
  assumes "\<forall>x \<in> set setIds. \<not> mismatched c x"
  shows "validateSetIds c setIds = Inr (map operand_key setIds)"
  unfolding validateSetIds_def
  by (rule map_throwing_all_Inr) (simp add: assms validateSetId_matched)

lemma postpare_not_CrossSlot: "postpare c x \<noteq> Inl (CrossSlotError m)"
  by (auto simp: postpare_def Let_def split: option.splits)

lemma map_postpare_not_CrossSlot:
  "\<not> is_CrossSlotError (map_throwing (\<lambda>x. postpare c (Some x)) xs)"
proof (cases "map_throwing (\<lambda>x. postpare c (Some x)) xs")
  case (Inl e)
  then obtain x where "postpare c (Some x) = Inl e"
    using map_throwing_Inl [of "\<lambda>x. postpare c (Some x)" xs e] by auto
  then have "\<And>m. e \<noteq> CrossSlotError m" using postpare_not_CrossSlot by blast
  with Inl show ?thesis by (cases e) auto
next
  case (Inr ys)
  then show ?thesis by simp
qed

lemma group_read_mismatched:
  assumes "\<exists>x \<in> set setIds. mismatched c x"
  shows "is_CrossSlotError (fst (group_read cmd c setIds st)) \<and> snd (group_read cmd c setIds st) = st"
proof -
  obtain m where "validateSetIds c setIds = Inl (CrossSlotError m)"
    using validateSetIds_mismatched [OF assms] by blast
  then show ?thesis by (simp add: group_read_def)
qed

lemma group_read_matched:
  assumes "\<forall>x \<in> set setIds. \<not> mismatched c x"
  shows "\<not> is_CrossSlotError (fst (group_read cmd c setIds st))"
  by (simp add: group_read_def validateSetIds_matched [OF assms] map_postpare_not_CrossSlot
      split: prod.splits)

lemma sibling_ok: "\<exists>n. sibling S u c i = Inr n"
  by (simp add: sibling_def constructor_def Let_def)

lemma group_store_mismatched:
  assumes "\<exists>x \<in> set setIds. mismatched c x"
  shows "is_CrossSlotError (fst (group_store cmd S u c i setIds st)) \<and> snd (group_store cmd S u c i setIds st) = st"
proof -
  obtain m where "validateSetIds c setIds = Inl (CrossSlotError m)"
    using validateSetIds_mismatched [OF assms] by blast
  moreover obtain n where "sibling S u c i = Inr n" using sibling_ok by blast
  ultimately show ?thesis by (simp add: group_store_def)
qed

lemma group_store_matched:
  assumes "\<forall>x \<in> set setIds. \<not> mismatched c x"
  shows "\<not> is_CrossSlotError (fst (group_store cmd S u c i setIds st))"
proof -
  obtain n where "sibling S u c i = Inr n" using sibling_ok by blast
  then show ?thesis
    by (simp add: group_store_def validateSetIds_matched [OF assms])
qed

section \<open>Group operations and the cross-slot guard\<close>

text \<open>
  C2. For each of the nine group operations: if some operand is a handle whose namespace
  or schema type differs from this collection's, the outcome is a CrossSlotError and the
  store is as before, with no command logged; if no operand is such a handle, the outcome
  is not a CrossSlotError; and operands that are raw keys pass through as they are.
\<close>

theorem group_operations_cross_slot:
  "((\<exists>x \<in> set setIds. mismatched c x) \<longrightarrow>
      cross_slot_refused (union_op c setIds st) st
    \<and> cross_slot_refused (unionStore S u c setIds st) st
    \<and> cross_slot_refused (unionStoreAt S u c i setIds st) st
    \<and> cross_slot_refused (intersect c setIds st) st
    \<and> cross_slot_refused (intersectStore S u c setIds st) st
    \<and> cross_slot_refused (intersectStoreAt S u c i setIds st) st
    \<and> cross_slot_refused (diff c setIds st) st
    \<and> cross_slot_refused (diffStore S u c setIds st) st
    \<and> cross_slot_refused (diffStoreAt S u c i setIds st) st)
   \<and> ((\<forall>x \<in> set setIds. \<not> mismatched c x) \<longrightarrow>
      \<not> is_CrossSlotError (fst (union_op c setIds st))
    \<and> \<not> is_CrossSlotError (fst (unionStore S u c setIds st))
    \<and> \<not> is_CrossSlotError (fst (unionStoreAt S u c i setIds st))
    \<and> \<not> is_CrossSlotError (fst (intersect c setIds st))
    \<and> \<not> is_CrossSlotError (fst (intersectStore S u c setIds st))
    \<and> \<not> is_CrossSlotError (fst (intersectStoreAt S u c i setIds st))
    \<and> \<not> is_CrossSlotError (fst (diff c setIds st))
    \<and> \<not> is_CrossSlotError (fst (diffStore S u c setIds st))
    \<and> \<not> is_CrossSlotError (fst (diffStoreAt S u c i setIds st)))
   \<and> validateSetIds c (map Key ks) = Inr ks"
proof -
  have keys: "validateSetIds c (map Key ks) = Inr ks"
    unfolding validateSetIds_def by (induction ks) (auto simp: validateSetId_def)
  have bad: "cross_slot_refused (group_read cmd c setIds st) st"
            "cross_slot_refused (group_store cmd' S u c j setIds st) st"
    if "\<exists>x \<in> set setIds. mismatched c x" for cmd cmd' j
    using that group_read_mismatched [of setIds c cmd st]
      group_store_mismatched [of setIds c cmd' S u j st]
    by (simp_all add: cross_slot_refused_def)
  have good: "\<not> is_CrossSlotError (fst (group_read cmd c setIds st))"
             "\<not> is_CrossSlotError (fst (group_store cmd' S u c j setIds st))"
    if "\<forall>x \<in> set setIds. \<not> mismatched c x" for cmd cmd' j
    using that group_read_matched [of setIds c cmd st]
      group_store_matched [of setIds c cmd' S u j st]
    by simp_all
  show ?thesis
    unfolding union_op_def unionStore_def unionStoreAt_def
      intersect_def intersectStore_def intersectStoreAt_def diff_def diffStore_def
      diffStoreAt_def
    using keys bad good by simp
qed

theorem group_operations_cross_slot_witness:
  "mismatched staff (Handle staff_ns2)
   \<and> cross_slot_refused (union_op staff [Key ''other'', Handle staff_ns2] empty_store) empty_store
   \<and> \<not> mismatched staff (Key ''other'') \<and> \<not> mismatched staff (Handle staff)
   \<and> \<not> is_CrossSlotError
         (fst (diffStore plain_strings ''4f1c'' staff [Key ''other'', Handle staff] empty_store))"
  using group_operations_cross_slot
          [where setIds = "[Key ''other'', Handle staff_ns2]" and c = staff and st = empty_store]
        group_operations_cross_slot
          [where setIds = "[Key ''other'', Handle staff]" and c = staff and st = empty_store
             and S = plain_strings and u = "''4f1c''"]
  by (simp add: mismatched_def staff_def staff_ns2_def)

section \<open>The unsupported operation and the aliases\<close>

text \<open>
  C8. \<open>onion\<close> fails on every argument list, and the store, its log included, is as before.
\<close>

theorem onion_always_fails:
  "onion c setIds st = (Inl (Error ''Onion error''), st)"
  by (simp add: onion_def)

text \<open>
  C10. On every input and every store, \<open>get\<close> is \<open>members\<close>, \<open>set\<close> is \<open>add\<close>, \<open>has\<close> is
  \<open>contains\<close> and \<open>clear\<close> is \<open>delete\<close>: the same outcome and the same store afterwards.
\<close>

theorem aliases_equal_primaries:
  "get c st = members c st
   \<and> set_op c doc st = add c doc st
   \<and> has c obj st = contains c obj st
   \<and> clear c st = delete_op c st"
  by (simp add: get_def set_op_def has_def clear_def)

section \<open>copyTo\<close>

text \<open>
  C9, as stated, at the empty id: the constructor takes an empty id for a missing one, so
  the copy is stored under a generated key and the handle is bound to that key, not to the
  id the caller gave.
\<close>

theorem copyTo_empty_id_counterexample:
  "copyTo plain_strings ''4f1c'' names [] empty_store
     = (Inr (names\<lparr> set_id := ''set-{string-ns1}-4f1c'' \<rparr>),
        sinterstore ''set-{string-ns1}-4f1c'' [''names''] empty_store)
   \<and> names\<lparr> set_id := ''set-{string-ns1}-4f1c'' \<rparr> \<noteq> names\<lparr> set_id := [] \<rparr>"
  by (simp add: copyTo_def sibling_def constructor_def or_string_def newKey_def names_def
      text_schema_def toLowerCase_def lower_unit_def)

text \<open>
  C9, amended. For every non-empty id, \<open>copyTo\<close> issues one \<open>sinterstore\<close> of the source key
  alone into the id, after which the id holds the source's members, and returns a handle
  that differs from this collection in its id only: the same client, schema, namespace and
  expiry. For the empty id it does the same with a generated key in the id's place. It
  never fails, whatever the id: nothing compares the id with the namespace or the type.
\<close>

theorem copyTo_stores_and_binds:
  "(i \<noteq> [] \<longrightarrow>
      copyTo Schema_String u c i st
        = (Inr (c\<lparr> set_id := i \<rparr>), sinterstore i [set_id c] st)
      \<and> sets (sinterstore i [set_id c] st) i = sets st (set_id c)
      \<and> log (sinterstore i [set_id c] st) = log st @ [SINTERSTORE i [set_id c]])
   \<and> (i = [] \<longrightarrow>
      (let k = ''set-{'' @ take 18 (toLowerCase (schema_type (set_schema c))) @ ''-''
               @ namespace c @ ''}-'' @ u
       in copyTo Schema_String u c i st
            = (Inr (c\<lparr> set_id := k \<rparr>), sinterstore k [set_id c] st)
          \<and> sets (sinterstore k [set_id c] st) k = sets st (set_id c)
          \<and> log (sinterstore k [set_id c] st) = log st @ [SINTERSTORE k [set_id c]]))"
  by (simp add: copyTo_def sibling_def constructor_def or_string_def newKey_def
      sinterstore_def store_at_def issue_def Let_def)

theorem copyTo_stores_and_binds_witness:
  "''copy'' \<noteq> []
   \<and> copyTo plain_strings ''4f1c'' names ''copy'' alice_store
       = (Inr (names\<lparr> set_id := ''copy'' \<rparr>), sinterstore ''copy'' [''names''] alice_store)
   \<and> sets alice_store ''names'' = [''alice'']
   \<and> sets (sinterstore ''copy'' [''names''] alice_store) ''copy'' = [''alice'']
   \<and> log (sinterstore ''copy'' [''names''] alice_store) = [SINTERSTORE ''copy'' [''names'']]
   \<and> copyTo plain_strings ''4f1c'' names [] alice_store
       = (Inr (names\<lparr> set_id := ''set-{string-ns1}-4f1c'' \<rparr>),
          sinterstore ''set-{string-ns1}-4f1c'' [''names''] alice_store)
   \<and> sets (sinterstore ''set-{string-ns1}-4f1c'' [''names''] alice_store)
        ''set-{string-ns1}-4f1c'' = [''alice'']"
proof -
  have k: "''set-{'' @ take 18 (toLowerCase (schema_type (set_schema names))) @ ''-''
             @ namespace names @ ''}-'' @ ''4f1c'' = ''set-{string-ns1}-4f1c''"
    by (simp add: names_def text_schema_def toLowerCase_def lower_unit_def)
  have n: "set_id names = ''names''" by (simp add: names_def)
  have a: "sets alice_store ''names'' = [''alice'']" "log alice_store = []"
    by (simp_all add: alice_store_def)
  from copyTo_stores_and_binds [of "''copy''" plain_strings "''4f1c''" names alice_store]
  have one: "copyTo plain_strings ''4f1c'' names ''copy'' alice_store
       = (Inr (names\<lparr> set_id := ''copy'' \<rparr>), sinterstore ''copy'' [''names''] alice_store)
     \<and> sets (sinterstore ''copy'' [''names''] alice_store) ''copy'' = [''alice'']
     \<and> log (sinterstore ''copy'' [''names''] alice_store) = [SINTERSTORE ''copy'' [''names'']]"
    by (simp add: n a)
  from copyTo_stores_and_binds [of "[]" plain_strings "''4f1c''" names alice_store]
  have two: "copyTo plain_strings ''4f1c'' names [] alice_store
       = (Inr (names\<lparr> set_id := ''set-{string-ns1}-4f1c'' \<rparr>),
          sinterstore ''set-{string-ns1}-4f1c'' [''names''] alice_store)
     \<and> sets (sinterstore ''set-{string-ns1}-4f1c'' [''names''] alice_store)
        ''set-{string-ns1}-4f1c'' = [''alice'']"
    unfolding Let_def k by (simp add: n a)
  from one two a show ?thesis by simp
qed

section \<open>Adding and removing the same document\<close>

lemma add_eq:
  "add c doc st =
     (if doc = JNull then (Inl (DocumentValidationError ''Can't create null object.''), st)
      else if isIterable doc then
          (case map_throwing (prepare c) (elements doc) of
             Inl e \<Rightarrow> (Inl e, st)
           | Inr ps \<Rightarrow>
               (Inr (JArr (map fst ps)), refreshExpiry c (sadd (set_id c) (map snd ps) st)))
      else
          (case prepare c doc of
             Inl e \<Rightarrow> (Inl e, st)
           | Inr (d, s) \<Rightarrow> (Inr d, refreshExpiry c (sadd (set_id c) [s] st))))"
  by (simp add: add_def add_started_def split: sum.splits prod.splits)

lemma stamp_idem:
  assumes "stamp c d = Inr d1"
  shows "stamp c d1 = Inr d1"
proof (cases d)
  case (JObj fs)
  let ?i = "JStr (set_id c)"
  let ?t = "JStr (schema_type (set_schema c))"
  let ?v = "JNum (currentVersion (set_schema c))"
  let ?gs = "if id_missing fs then AList.update ''id'' ?i fs else fs"
  let ?hs = "AList.update ''version'' ?v (AList.update ''type'' ?t ?gs)"
  from assms JObj have d1: "d1 = JObj ?hs" by (simp add: stamp_def)
  have id_hs: "map_of ?hs ''id'' = map_of ?gs ''id''"
    by (simp add: update_conv')
  have keep: "(if id_missing ?hs then AList.update ''id'' ?i ?hs else ?hs) = ?hs"
  proof (cases "id_missing ?hs")
    case True
    show ?thesis
    proof (cases "id_missing fs")
      case mf: True
      then have "map_of ?hs ''id'' = Some ?i" by (simp add: update_conv')
      then show ?thesis by (simp add: update_triv)
    next
      case mf: False
      with True id_hs show ?thesis by (simp add: id_missing_def)
    qed
  next
    case False
    then show ?thesis by simp
  qed
  have ty: "map_of ?hs ''type'' = Some ?t" by (simp add: update_conv')
  have ve: "map_of ?hs ''version'' = Some ?v" by (simp add: update_conv')
  have "AList.update ''version'' ?v (AList.update ''type'' ?t ?hs) = ?hs"
    using ty ve by (simp only: update_triv)
  with keep d1 show ?thesis by (simp add: stamp_def)
next
  case (JArr xs)
  with assms show ?thesis by (auto simp: stamp_def)
qed (use assms in \<open>auto simp: stamp_def\<close>)

lemma prepare_idem:
  assumes "prepare c d = Inr (d1, s)"
  shows "prepare c d1 = Inr (d1, s)"
proof (cases "constructor_name (set_schema c) = ''MigratingSchema''")
  case True
  with assms obtain d' where d': "stamp c d = Inr d'"
    by (auto simp: prepare_def split: sum.splits)
  with assms True have "d' = d1" by (auto simp: prepare_def split: if_splits)
  with d' have "stamp c d1 = Inr d1" using stamp_idem by blast
  with assms True d' \<open>d' = d1\<close> show ?thesis by (auto simp: prepare_def split: if_splits)
next
  case False
  with assms show ?thesis by (auto simp: prepare_def split: if_splits)
qed

lemma sets_refreshExpiry [simp]: "sets (refreshExpiry c st) = sets st"
  by (simp add: refreshExpiry_def expire_def issue_def split: option.splits)

lemma map_throwing_Inr_source:
  "map_throwing f xs = Inr ys \<Longrightarrow> y \<in> set ys \<Longrightarrow> \<exists>x \<in> set xs. f x = Inr y"
proof (induction xs arbitrary: ys)
  case Nil
  then show ?case by simp
next
  case (Cons a xs)
  from Cons.prems(1) obtain b bs where b: "f a = Inr b" and bs: "map_throwing f xs = Inr bs"
    and ys: "ys = b # bs"
    by (auto split: sum.splits)
  show ?case
  proof (cases "y = b")
    case True
    with b show ?thesis by simp
  next
    case False
    with Cons.prems(2) ys have "y \<in> set bs" by simp
    with bs have "\<exists>x \<in> set xs. f x = Inr y" by (rule Cons.IH)
    then show ?thesis by simp
  qed
qed

text \<open>
  C7, as stated, in a store that holds an older member. The payroll key holds an employee
  written at version 1, which \<open>members\<close> returns upgraded; that document is added and
  removed again. \<open>add\<close> and \<open>rem\<close> serialise it at version 3, so the old member stays,
  and \<open>members\<close> still returns the document.
\<close>

theorem add_then_rem_leaves_equal_document_counterexample:
  "fst (add payroll payrollEmployee payroll_store) = Inr payrollEmployee
   \<and> fst (rem payroll payrollEmployee (snd (add payroll payrollEmployee payroll_store)))
       = Inr payrollEmployee
   \<and> fst (members payroll
        (snd (rem payroll payrollEmployee (snd (add payroll payrollEmployee payroll_store)))))
       = Inr [payrollEmployee]"
  by (simp add: add_eq rem_def members_def smembers_def srem_def sadd_def issue_def
      refreshExpiry_def prepare_def stamp_def id_missing_def postpare_def payroll_def
      payroll_store_def payroll_ser_def payroll_de_def payrollEmployee_def
      storedPayrollEmployee_def MigratingSchema_def chain_isValid_def chain_upgrade_def
      chain_currentVersion_def employeeSchema_def addVersion_def version_of_def
      set_version_def to_v2_def to_v3_def employeeV1_def employeeV2_def employeeV3_def
      is_string_def opt_integer_def template_text_def)

text \<open>
  C7, amended. For a single document \<open>d\<close> that \<open>add\<close> accepts: \<open>add\<close> and \<open>rem\<close> serialise
  it to the same member, whether \<open>rem\<close> is given the document as \<open>add\<close> left it or an
  equal copy of the original; after \<open>add\<close> and \<open>rem\<close> the key holds what it held before,
  less that member (so exactly what it held before, if the member is new), and \<open>members\<close>
  decodes exactly those. So \<open>members\<close> does not contain the document, provided no other
  member the key holds decodes and upgrades to it.
\<close>

theorem add_then_rem_cancel:
  assumes single: "\<not> isIterable d" and added: "add c d st = (Inr d1, st1)"
  shows "\<exists>s st2. prepare c d = Inr (d1, s)
           \<and> rem c d1 st1 = (Inr d1, st2) \<and> rem c d st1 = (Inr d1, st2)
           \<and> s \<notin> set (sets st2 (set_id c))
           \<and> sets st2 (set_id c) = removeAll s (sets st (set_id c))
           \<and> (s \<notin> set (sets st (set_id c)) \<longrightarrow> sets st2 (set_id c) = sets st (set_id c))
           \<and> fst (members c st2)
               = map_throwing (\<lambda>x. postpare c (Some x)) (removeAll s (sets st (set_id c)))
           \<and> ((\<forall>x \<in> set (removeAll s (sets st (set_id c))). postpare c (Some x) \<noteq> Inr d1)
                \<longrightarrow> (\<forall>docs. fst (members c st2) = Inr docs \<longrightarrow> d1 \<notin> set docs))
           \<and> ((\<forall>x \<in> set (removeAll s (sets st (set_id c))). postpare c (Some x) \<noteq> Inr d)
                \<longrightarrow> (\<forall>docs. fst (members c st2) = Inr docs \<longrightarrow> d \<notin> set docs))"
proof -
  from single added obtain s where p: "prepare c d = Inr (d1, s)"
    and st1: "st1 = refreshExpiry c (sadd (set_id c) [s] st)"
    by (auto simp: add_eq split: if_splits sum.splits)
  have p1: "prepare c d1 = Inr (d1, s)" using p by (rule prepare_idem)
  let ?st2 = "refreshExpiry c (srem (set_id c) s st1)"
  let ?rest = "removeAll s (sets st (set_id c))"
  have r1: "rem c d1 st1 = (Inr d1, ?st2)" by (simp add: rem_def p1)
  have r: "rem c d st1 = (Inr d1, ?st2)" by (simp add: rem_def p)
  have s2: "sets ?st2 (set_id c) = ?rest"
    by (simp add: st1 srem_def sadd_def issue_def)
  have m: "fst (members c ?st2) = map_throwing (\<lambda>x. postpare c (Some x)) ?rest"
    using s2 by (simp add: members_def smembers_def)
  have absent: "y \<notin> set docs"
    if none: "\<forall>x \<in> set ?rest. postpare c (Some x) \<noteq> Inr y"
      and docs: "fst (members c ?st2) = Inr docs" for y docs
  proof
    assume y: "y \<in> set docs"
    from m [symmetric] docs
    have "map_throwing (\<lambda>x. postpare c (Some x)) ?rest = Inr docs" by (rule trans)
    from map_throwing_Inr_source [OF this y]
    obtain x where "x \<in> set ?rest" "postpare c (Some x) = Inr y" by auto
    with none show False by auto
  qed
  have n1: "(\<forall>x \<in> set ?rest. postpare c (Some x) \<noteq> Inr d1)
              \<longrightarrow> (\<forall>docs. fst (members c ?st2) = Inr docs \<longrightarrow> d1 \<notin> set docs)"
    using absent [of d1] by blast
  have n2: "(\<forall>x \<in> set ?rest. postpare c (Some x) \<noteq> Inr d)
              \<longrightarrow> (\<forall>docs. fst (members c ?st2) = Inr docs \<longrightarrow> d \<notin> set docs)"
    using absent [of d] by blast
  have gone: "s \<notin> set (sets ?st2 (set_id c))" by (simp only: s2) simp
  have same: "s \<notin> set (sets st (set_id c)) \<longrightarrow> sets ?st2 (set_id c) = sets st (set_id c)"
    by (simp only: s2) simp
  show ?thesis
    apply (rule exI [of _ s])
    apply (rule exI [of _ ?st2])
    using p r1 r gone s2 same m n1 n2 apply (intro conjI)
            apply assumption+
    done
qed

theorem add_then_rem_cancel_witness:
  "\<not> isIterable (JStr ''bob'')
   \<and> sets alice_store ''names'' = [''alice'']
   \<and> fst (add names (JStr ''bob'') alice_store) = Inr (JStr ''bob'')
   \<and> fst (members names (snd (add names (JStr ''bob'') alice_store)))
       = Inr [JStr ''alice'', JStr ''bob'']
   \<and> postpare names (Some ''alice'') \<noteq> Inr (JStr ''bob'')
   \<and> fst (members names
        (snd (rem names (JStr ''bob'') (snd (add names (JStr ''bob'') alice_store)))))
       = Inr [JStr ''alice'']
   \<and> JStr ''bob'' \<notin> set [JStr ''alice'']"
proof -
  let ?st1 = "snd (add names (JStr ''bob'') alice_store)"
  have f: "fst (add names (JStr ''bob'') alice_store) = Inr (JStr ''bob'')"
    by (simp add: add_eq prepare_def names_def text_schema_def)
  then have a: "add names (JStr ''bob'') alice_store = (Inr (JStr ''bob''), ?st1)"
    by (simp add: prod_eq_iff)
  have one: "\<not> isIterable (JStr ''bob'')" by simp
  have pr: "prepare names (JStr ''bob'') = Inr (JStr ''bob'', ''bob'')"
    by (simp add: prepare_def names_def text_schema_def)
  have e: "sets alice_store (set_id names) = [''alice'']"
    by (simp add: alice_store_def names_def)
  have pa: "postpare names (Some ''alice'') = Inr (JStr ''alice'')"
    by (simp add: postpare_def names_def text_schema_def)
  from add_then_rem_cancel [OF one a]
  have "\<exists>s st2. prepare names (JStr ''bob'') = Inr (JStr ''bob'', s)
     \<and> rem names (JStr ''bob'') ?st1 = (Inr (JStr ''bob''), st2)
     \<and> fst (members names st2)
          = map_throwing (\<lambda>x. postpare names (Some x))
              (removeAll s (sets alice_store (set_id names)))
     \<and> ((\<forall>x \<in> set (removeAll s (sets alice_store (set_id names))).
               postpare names (Some x) \<noteq> Inr (JStr ''bob''))
            \<longrightarrow> (\<forall>docs. fst (members names st2) = Inr docs \<longrightarrow> JStr ''bob'' \<notin> set docs))"
    by (elim exE conjE, intro exI conjI) assumption+
  then obtain s st2 where s: "prepare names (JStr ''bob'') = Inr (JStr ''bob'', s)"
    and r: "rem names (JStr ''bob'') ?st1 = (Inr (JStr ''bob''), st2)"
    and m: "fst (members names st2)
          = map_throwing (\<lambda>x. postpare names (Some x))
              (removeAll s (sets alice_store (set_id names)))"
    and n: "(\<forall>x \<in> set (removeAll s (sets alice_store (set_id names))).
               postpare names (Some x) \<noteq> Inr (JStr ''bob''))
            \<longrightarrow> (\<forall>docs. fst (members names st2) = Inr docs \<longrightarrow> JStr ''bob'' \<notin> set docs)"
    by (elim exE conjE)
  from s pr have sb: "s = ''bob''" by simp
  from r have st2: "snd (rem names (JStr ''bob'') ?st1) = st2" by simp
  have after: "fst (members names (snd (rem names (JStr ''bob'') ?st1))) = Inr [JStr ''alice'']"
    using m by (simp add: st2 e sb pa)
  from n after have gone: "JStr ''bob'' \<notin> set [JStr ''alice'']"
    by (simp add: st2 e sb pa)
  have before: "fst (members names ?st1) = Inr [JStr ''alice'', JStr ''bob'']"
    by (simp add: add_eq prepare_def members_def smembers_def sadd_def issue_def
        postpare_def names_def text_schema_def alice_store_def)
  have e': "sets alice_store ''names'' = [''alice'']" by (simp add: alice_store_def)
  have pn: "postpare names (Some ''alice'') \<noteq> Inr (JStr ''bob'')" by (simp add: pa)
  from one e' f before pn after gone show ?thesis by blast
qed

section \<open>Upgrading along the chain\<close>

lemma version_of_set_version:
  "set_version v d = Some d' \<Longrightarrow> version_of d' = Some v"
  by (auto simp: set_version_def version_of_def update_conv' split: json.splits)

lemma upgrade_steps_version:
  "upgrade_steps svs v d = Some d' \<Longrightarrow> version_of d = Some v
     \<Longrightarrow> version_of d' = Some (v + int (length svs))"
proof (induction svs arbitrary: v d)
  case Nil
  then show ?case by simp
next
  case (Cons sv svs)
  from Cons.prems(1) obtain d1 where d1: "set_version (v + 1) (upgradeFn sv d) = Some d1"
    and rest: "upgrade_steps svs (v + 1) d1 = Some d'"
    by (auto split: option.splits if_splits)
  from d1 have "version_of d1 = Some (v + 1)" by (rule version_of_set_version)
  with rest have "version_of d' = Some (v + 1 + int (length svs))" by (rule Cons.IH)
  then show ?case by simp
qed

lemma chain_upgrade_version:
  assumes "chain_upgrade ch d = Some d'"
  shows "version_of d' = Some (chain_currentVersion ch)"
proof -
  from assms obtain v where v: "version_of d = Some v" "1 \<le> v" "v \<le> chain_currentVersion ch"
    and st: "upgrade_steps (drop (nat v) (versions ch)) v d = Some d'"
    by (auto simp: chain_upgrade_def split: option.splits if_splits)
  from st v(1) have "version_of d' = Some (v + int (length (drop (nat v) (versions ch))))"
    by (rule upgrade_steps_version)
  with v show ?thesis by (simp add: chain_currentVersion_def)
qed












section \<open>Reading members back\<close>

lemma postpare_latest:
  assumes "set_schema c = MigratingSchema ch err ser de" and "postpare c (Some s) = Inr d"
  shows "version_of d = Some (chain_currentVersion ch)"
proof -
  from assms have "chain_upgrade ch (de s) = Some d"
    by (auto simp: postpare_def MigratingSchema_def Let_def split: option.splits)
  then show ?thesis by (rule chain_upgrade_version)
qed

lemma map_postpare_latest:
  assumes "set_schema c = MigratingSchema ch err ser de"
  shows "all_latest ch (map_throwing (\<lambda>x. postpare c (Some x)) xs, st)"
proof (cases "map_throwing (\<lambda>x. postpare c (Some x)) xs")
  case (Inl e)
  then show ?thesis by (simp add: all_latest_def)
next
  case (Inr docs)
  then have "list_all2 (\<lambda>x y. postpare c (Some x) = Inr y) xs docs"
    by (rule map_throwing_Inr)
  then have "\<forall>d \<in> set docs. \<exists>x. postpare c (Some x) = Inr d"
    by (fastforce simp: list_all2_conv_all_nth in_set_conv_nth)
  then have "\<forall>d \<in> set docs. version_of d = Some (chain_currentVersion ch)"
    using postpare_latest [OF assms] by blast
  with Inr show ?thesis by (simp add: all_latest_def list_all_iff)
qed

lemma group_read_latest:
  assumes "set_schema c = MigratingSchema ch err ser de"
  shows "all_latest ch (group_read cmd c setIds st)"
proof (cases "validateSetIds c setIds")
  case (Inl e)
  then show ?thesis by (simp add: group_read_def all_latest_def)
next
  case (Inr ks)
  obtain res st1 where "cmd (set_id c # ks) st = (res, st1)" by (cases "cmd (set_id c # ks) st")
  with Inr show ?thesis
    using map_postpare_latest [OF assms, of res st1] by (simp add: group_read_def)
qed

text \<open>
  C6. \<open>postpare\<close> of \<open>null\<close> is \<open>null\<close>; \<open>postpare\<close> of a member is the member
  deserialised and passed through the schema's \<open>upgrade\<close>, failing where the upgrade
  fails; and when the schema is a schema chain, every document that \<open>members\<close>,
  \<open>randmember\<close>, \<open>union\<close>, \<open>intersect\<close> or \<open>diff\<close> returns carries the chain's current
  version.
\<close>

theorem reads_return_latest_version:
  "postpare c None = Inr JNull
   \<and> postpare c (Some s)
       = (case upgrade (set_schema c) (deserializationFn (set_schema c) s) of
            None \<Rightarrow> Inl MigrationError
          | Some d \<Rightarrow> Inr d)
   \<and> (set_schema c = MigratingSchema ch err ser de \<longrightarrow>
         all_latest ch (members c st) \<and> all_latest ch (randmember c n st)
       \<and> all_latest ch (union_op c setIds st) \<and> all_latest ch (intersect c setIds st)
       \<and> all_latest ch (diff c setIds st))"
proof -
  have a: "postpare c None = Inr JNull" by (simp add: postpare_def)
  have b: "postpare c (Some s)
       = (case upgrade (set_schema c) (deserializationFn (set_schema c) s) of
            None \<Rightarrow> Inl MigrationError
          | Some d \<Rightarrow> Inr d)"
    by (simp add: postpare_def)
  have r: "all_latest ch (members c st) \<and> all_latest ch (randmember c n st)
       \<and> all_latest ch (union_op c setIds st) \<and> all_latest ch (intersect c setIds st)
       \<and> all_latest ch (diff c setIds st)"
    if sch: "set_schema c = MigratingSchema ch err ser de"
  proof -
    have "all_latest ch (members c st)"
      using map_postpare_latest [OF sch] by (simp add: members_def smembers_def)
    moreover have "all_latest ch (randmember c n st)"
      using map_postpare_latest [OF sch] by (simp add: randmember_def srandmember_def)
    ultimately show ?thesis
      using group_read_latest [OF sch] by (simp add: union_op_def intersect_def diff_def)
  qed
  from a b r show ?thesis by blast
qed

theorem reads_return_latest_version_witness:
  "set_schema staff = employee_schema
   \<and> fst (members staff staff_store) = Inr [upgradedEmployee]
   \<and> version_of upgradedEmployee = Some (chain_currentVersion employeeSchema)
   \<and> all_latest employeeSchema (members staff staff_store)
   \<and> all_latest employeeSchema (union_op staff [Key ''other''] staff_store)"
proof -
  have sch: "set_schema staff
      = MigratingSchema employeeSchema (\<lambda>d. ''invalid employee'') employee_ser employee_de"
    by (simp add: staff_def employee_schema_def)
  have m: "fst (members staff staff_store) = Inr [upgradedEmployee]"
    by (simp add: members_def smembers_def staff_store_def staff_def employee_schema_def
        MigratingSchema_def postpare_def employee_de_def chain_upgrade_def
        employeeSchema_def addVersion_def validEmployee_def upgradedEmployee_def
        version_of_def chain_currentVersion_def set_version_def to_v2_def to_v3_def
        employeeV1_def employeeV2_def employeeV3_def is_string_def opt_integer_def
        template_text_def)
  have v: "version_of upgradedEmployee = Some (chain_currentVersion employeeSchema)"
    by (simp add: upgradedEmployee_def version_of_def chain_currentVersion_def
        employeeSchema_def addVersion_def)
  from reads_return_latest_version
         [where c = staff and ch = employeeSchema and st = staff_store
            and setIds = "[Key ''other'']"] sch
  have "all_latest employeeSchema (members staff staff_store)
        \<and> all_latest employeeSchema (union_op staff [Key ''other''] staff_store)"
    by blast
  with m v show ?thesis by (simp add: staff_def)
qed

section \<open>add\<close>

lemma map_throwing_Inl_iff:
  "map_throwing f xs = Inl e \<longleftrightarrow>
     (\<exists>pre x post. xs = pre @ x # post \<and> (\<forall>y \<in> set pre. \<exists>r. f y = Inr r) \<and> f x = Inl e)"
proof (induction xs)
  case Nil
  then show ?case by simp
next
  case (Cons a xs)
  show ?case
  proof (cases "f a")
    case (Inl e')
    have "(\<exists>pre x post. a # xs = pre @ x # post \<and> (\<forall>y \<in> set pre. \<exists>r. f y = Inr r)
             \<and> f x = Inl e) \<longleftrightarrow> e' = e"
    proof
      assume "\<exists>pre x post. a # xs = pre @ x # post \<and> (\<forall>y \<in> set pre. \<exists>r. f y = Inr r)
                \<and> f x = Inl e"
      then obtain pre x post where *: "a # xs = pre @ x # post"
        "\<forall>y \<in> set pre. \<exists>r. f y = Inr r" "f x = Inl e" by blast
      show "e' = e"
      proof (cases pre)
        case Nil
        with * Inl show ?thesis by simp
      next
        case (Cons b pre')
        with * Inl show ?thesis by auto
      qed
    next
      assume "e' = e"
      with Inl have "a # xs = [] @ a # xs \<and> (\<forall>y \<in> set []. \<exists>r. f y = Inr r) \<and> f a = Inl e"
        by simp
      then show "\<exists>pre x post. a # xs = pre @ x # post \<and> (\<forall>y \<in> set pre. \<exists>r. f y = Inr r)
                   \<and> f x = Inl e" by blast
    qed
    with Inl show ?thesis by simp
  next
    case (Inr y)
    have "(\<exists>pre x post. a # xs = pre @ x # post \<and> (\<forall>y \<in> set pre. \<exists>r. f y = Inr r)
             \<and> f x = Inl e)
          \<longleftrightarrow> (\<exists>pre x post. xs = pre @ x # post \<and> (\<forall>y \<in> set pre. \<exists>r. f y = Inr r)
             \<and> f x = Inl e)" (is "?L \<longleftrightarrow> ?R")
    proof
      assume ?L
      then obtain pre x post where *: "a # xs = pre @ x # post"
        "\<forall>y \<in> set pre. \<exists>r. f y = Inr r" "f x = Inl e" by blast
      show ?R
      proof (cases pre)
        case Nil
        with * Inr show ?thesis by simp
      next
        case (Cons b pre')
        with * have "xs = pre' @ x # post" "\<forall>y \<in> set pre'. \<exists>r. f y = Inr r" by auto
        with *(3) show ?thesis by blast
      qed
    next
      assume ?R
      then obtain pre x post where *: "xs = pre @ x # post"
        "\<forall>y \<in> set pre. \<exists>r. f y = Inr r" "f x = Inl e" by blast
      with Inr have "a # xs = (a # pre) @ x # post" "\<forall>y \<in> set (a # pre). \<exists>r. f y = Inr r"
        by auto
      with *(3) show ?L by blast
    qed
    moreover have "map_throwing f (a # xs) = Inl e \<longleftrightarrow> map_throwing f xs = Inl e"
      using Inr by (cases "map_throwing f xs") simp_all
    ultimately show ?thesis using Cons.IH by (simp only:)
  qed
qed

lemma prepare_when_prepared:
  "prepared c x \<Longrightarrow> prepare c x = Inr (written c x, member_of c x)"
  by (simp add: prepared_def written_def member_of_def split: sum.splits)

lemma prepared_iff: "prepared c x \<longleftrightarrow> (\<exists>r. prepare c x = Inr r)"
  by (simp add: prepared_def split: sum.splits)

lemma fails_validation_iff:
  "fails_validation c x \<longleftrightarrow> (\<exists>m. prepare c x = Inl (DocumentValidationError m))"
  by (simp add: fails_validation_def split: sum.splits error.splits)

lemma written_plain:
  "constructor_name (set_schema c) \<noteq> ''MigratingSchema'' \<Longrightarrow> written c x = x"
  by (simp add: written_def prepare_def split: sum.splits)

lemma log_refreshExpiry: "log (refreshExpiry c st) = log st @ expiry_commands c"
  by (simp add: refreshExpiry_def expiry_commands_def expire_def issue_def split: option.splits)

lemma add_rejects_with_validation_error:
  "(\<exists>m. fst (add c doc st) = Inl (DocumentValidationError m)) \<longleftrightarrow>
     doc = JNull \<or> (\<exists>pre x post. docs_of doc = pre @ x # post \<and> list_all (prepared c) pre
                       \<and> fails_validation c x)"
proof (cases "doc = JNull")
  case True
  then show ?thesis by (simp add: add_eq)
next
  case notnull: False
  show ?thesis
  proof (cases "isIterable doc")
    case True
    have "(\<exists>m. fst (add c doc st) = Inl (DocumentValidationError m))
          \<longleftrightarrow> (\<exists>m. map_throwing (prepare c) (elements doc) = Inl (DocumentValidationError m))"
      using notnull True by (auto simp: add_eq split: sum.splits)
    also have "\<dots> \<longleftrightarrow> (\<exists>pre x post. elements doc = pre @ x # post
                 \<and> list_all (prepared c) pre \<and> fails_validation c x)"
      unfolding map_throwing_Inl_iff fails_validation_iff list_all_iff prepared_iff by blast
    finally show ?thesis using notnull True by (simp add: docs_of_def)
  next
    case False
    have l: "(\<exists>m. fst (add c doc st) = Inl (DocumentValidationError m))
          \<longleftrightarrow> fails_validation c doc"
      using notnull False
      by (auto simp: add_eq fails_validation_iff split: sum.splits prod.splits)
    have "(\<exists>pre x post. [doc] = pre @ x # post \<and> list_all (prepared c) pre
             \<and> fails_validation c x) \<longleftrightarrow> fails_validation c doc"
      by (auto simp: Cons_eq_append_conv)
    with l notnull False show ?thesis by (simp add: docs_of_def)
  qed
qed

lemma add_when_all_prepared:
  assumes "doc \<noteq> JNull" and "list_all (prepared c) (docs_of doc)"
  shows "add c doc st =
           (Inr (if isIterable doc then JArr (map (written c) (elements doc)) else written c doc),
            refreshExpiry c (sadd (set_id c) (map (member_of c) (docs_of doc)) st))"
proof (cases "isIterable doc")
  case True
  with assms(2) have "\<forall>x \<in> set (elements doc). prepare c x = Inr (written c x, member_of c x)"
    by (simp add: docs_of_def list_all_iff prepare_when_prepared)
  then have "map_throwing (prepare c) (elements doc)
               = Inr (map (\<lambda>x. (written c x, member_of c x)) (elements doc))"
    by (rule map_throwing_all_Inr)
  with assms(1) True show ?thesis by (simp add: add_eq docs_of_def comp_def)
next
  case False
  with assms(2) have "prepare c doc = Inr (written c doc, member_of c doc)"
    by (simp add: docs_of_def prepare_when_prepared)
  with assms(1) False show ?thesis by (simp add: add_eq docs_of_def)
qed

lemma add_failure_leaves_store: "fst (add c doc st) = Inl e \<Longrightarrow> snd (add c doc st) = st"
  by (auto simp: add_eq split: if_splits sum.splits prod.splits)

lemma names_prepare:
  "prepare names (JStr s) = Inr (JStr s, s)"
  "prepare names (JNum n) = Inl (DocumentValidationError
       ''Can't create new object, schema error: should be string'')"
  by (simp_all add: prepare_def names_def text_schema_def)

lemma written_versioned_object:
  assumes "constructor_name (set_schema c) = ''MigratingSchema''" and "prepared c (JObj fs)"
  shows "written c (JObj fs)
           = JObj (AList.update ''version'' (JNum (currentVersion (set_schema c)))
                  (AList.update ''type'' (JStr (schema_type (set_schema c)))
                  (if id_missing fs then AList.update ''id'' (JStr (set_id c)) fs else fs)))"
  using assms
  by (auto simp: written_def prepared_def prepare_def stamp_def split: sum.splits if_splits)

lemma staff_prepare_newEmployee:
  "prepare staff newEmployee = Inr (stampedEmployee, ''employee'')"
  by (simp add: prepare_def stamp_def id_missing_def staff_def employee_schema_def
      MigratingSchema_def chain_isValid_def chain_currentVersion_def employeeSchema_def
      addVersion_def version_of_def employeeV3_def is_string_def opt_integer_def
      newEmployee_def stampedEmployee_def employee_ser_def validEmployee_def)

text \<open>
  C5, as stated, at two inputs. Under a version-aware schema \<open>prepare\<close> writes \<open>id\<close>, \<open>type\<close>
  and \<open>version\<close> into the caller's document, so what \<open>add\<close> returns is not the input as
  it was given; and on an array holding \<open>null\<close> such a schema makes \<open>prepare\<close> throw a
  TypeError, so \<open>add\<close> neither raises the validation error nor inserts anything.
\<close>

theorem add_returns_input_counterexample:
  "fst (add staff newEmployee empty_store) = Inr stampedEmployee
   \<and> stampedEmployee \<noteq> newEmployee
   \<and> add staff (JArr [JNull]) empty_store = (Inl TypeError, empty_store)"
  by (simp add: add_eq prepare_def stamp_def id_missing_def staff_def employee_schema_def
      MigratingSchema_def chain_isValid_def chain_currentVersion_def employeeSchema_def
      addVersion_def version_of_def employeeV3_def is_string_def opt_integer_def
      newEmployee_def stampedEmployee_def)

text \<open>
  C5, amended. \<open>add\<close> raises the validation error exactly when the document is \<open>null\<close> or
  \<open>prepare\<close>, having prepared every earlier element, reaches an element that fails
  validation. When the document is not \<open>null\<close> and \<open>prepare\<close> returns on every element,
  \<open>add\<close> issues one \<open>sadd\<close> with all the prepared members, then the \<open>expire\<close> of
  \<open>refreshExpiry\<close> if an expiry is set, and returns the input as \<open>prepare\<close> left it: that
  is the input itself when the schema is not version-aware, and when it is, every document
  that is an object comes back with \<open>type\<close> and \<open>version\<close> set to the schema's and with
  \<open>id\<close> set to the collection's key where it was missing or empty. A rejected \<open>add\<close>
  leaves the store as it was.
\<close>

theorem add_outcome:
  "((\<exists>m. fst (add c doc st) = Inl (DocumentValidationError m)) \<longleftrightarrow>
      doc = JNull \<or> (\<exists>pre x post. docs_of doc = pre @ x # post \<and> list_all (prepared c) pre
                        \<and> fails_validation c x))
   \<and> (doc \<noteq> JNull \<and> list_all (prepared c) (docs_of doc) \<longrightarrow>
        add c doc st =
          (Inr (if isIterable doc then JArr (map (written c) (elements doc)) else written c doc),
           refreshExpiry c (sadd (set_id c) (map (member_of c) (docs_of doc)) st))
      \<and> log (snd (add c doc st))
          = log st @ [SADD (set_id c) (map (member_of c) (docs_of doc))] @ expiry_commands c
      \<and> (constructor_name (set_schema c) \<noteq> ''MigratingSchema'' \<longrightarrow>
            fst (add c doc st) = Inr doc)
      \<and> (constructor_name (set_schema c) = ''MigratingSchema'' \<longrightarrow>
            (\<forall>fs. JObj fs \<in> set (docs_of doc) \<longrightarrow>
               written c (JObj fs)
                 = JObj (AList.update ''version'' (JNum (currentVersion (set_schema c)))
                        (AList.update ''type'' (JStr (schema_type (set_schema c)))
                        (if id_missing fs then AList.update ''id'' (JStr (set_id c)) fs
                         else fs))))))
   \<and> (\<forall>e. fst (add c doc st) = Inl e \<longrightarrow> snd (add c doc st) = st)"
proof -
  have ok: "add c doc st =
          (Inr (if isIterable doc then JArr (map (written c) (elements doc)) else written c doc),
           refreshExpiry c (sadd (set_id c) (map (member_of c) (docs_of doc)) st))
      \<and> log (snd (add c doc st))
          = log st @ [SADD (set_id c) (map (member_of c) (docs_of doc))] @ expiry_commands c
      \<and> (constructor_name (set_schema c) \<noteq> ''MigratingSchema'' \<longrightarrow>
            fst (add c doc st) = Inr doc)
      \<and> (constructor_name (set_schema c) = ''MigratingSchema'' \<longrightarrow>
            (\<forall>fs. JObj fs \<in> set (docs_of doc) \<longrightarrow>
               written c (JObj fs)
                 = JObj (AList.update ''version'' (JNum (currentVersion (set_schema c)))
                        (AList.update ''type'' (JStr (schema_type (set_schema c)))
                        (if id_missing fs then AList.update ''id'' (JStr (set_id c)) fs
                         else fs)))))"
    if h: "doc \<noteq> JNull \<and> list_all (prepared c) (docs_of doc)"
  proof -
    from h have a: "add c doc st =
          (Inr (if isIterable doc then JArr (map (written c) (elements doc)) else written c doc),
           refreshExpiry c (sadd (set_id c) (map (member_of c) (docs_of doc)) st))"
      using add_when_all_prepared [of doc c st] by simp
    have l: "log (snd (add c doc st))
          = log st @ [SADD (set_id c) (map (member_of c) (docs_of doc))] @ expiry_commands c"
      by (simp add: a log_refreshExpiry sadd_def issue_def)
    have p: "fst (add c doc st) = Inr doc"
      if "constructor_name (set_schema c) \<noteq> ''MigratingSchema''"
    proof -
      from that have w: "written c = (\<lambda>x. x)" by (intro ext) (simp add: written_plain)
      have "(if isIterable doc then JArr (map (written c) (elements doc)) else written c doc)
              = doc"
        by (cases doc) (simp_all add: w)
      then show ?thesis by (simp add: a)
    qed
    have v: "written c (JObj fs)
                 = JObj (AList.update ''version'' (JNum (currentVersion (set_schema c)))
                        (AList.update ''type'' (JStr (schema_type (set_schema c)))
                        (if id_missing fs then AList.update ''id'' (JStr (set_id c)) fs
                         else fs)))"
      if m: "constructor_name (set_schema c) = ''MigratingSchema''"
        and fs: "JObj fs \<in> set (docs_of doc)" for fs
    proof -
      from h fs have "prepared c (JObj fs)" by (simp add: list_all_iff)
      with m show ?thesis by (rule written_versioned_object)
    qed
    from a l p v show ?thesis by (intro conjI impI allI) simp_all
  qed
  have dve: "(\<exists>m. fst (add c doc st) = Inl (DocumentValidationError m)) \<longleftrightarrow>
      doc = JNull \<or> (\<exists>pre x post. docs_of doc = pre @ x # post \<and> list_all (prepared c) pre
                        \<and> fails_validation c x)"
    by (rule add_rejects_with_validation_error)
  have fl: "\<forall>e. fst (add c doc st) = Inl e \<longrightarrow> snd (add c doc st) = st"
    using add_failure_leaves_store [of c doc st] by simp
  show ?thesis
    apply (intro conjI)
      apply (rule dve)
     apply (rule impI)
     apply (erule ok)
    apply (rule fl)
    done
qed

theorem add_outcome_witness:
  "JArr [JStr ''alice'', JStr ''bob''] \<noteq> JNull
   \<and> list_all (prepared names) (docs_of (JArr [JStr ''alice'', JStr ''bob'']))
   \<and> constructor_name (set_schema names) \<noteq> ''MigratingSchema''
   \<and> fst (add names (JArr [JStr ''alice'', JStr ''bob'']) empty_store)
       = Inr (JArr [JStr ''alice'', JStr ''bob''])
   \<and> log (snd (add names (JArr [JStr ''alice'', JStr ''bob'']) empty_store))
       = [SADD ''names'' [''alice'', ''bob''], EXPIRE ''names'' 60]
   \<and> fails_validation names (JNum 5)
   \<and> add names (JArr [JStr ''alice'', JNum 5]) empty_store
       = (Inl (DocumentValidationError
            ''Can't create new object, schema error: should be string''), empty_store)
   \<and> newEmployee \<noteq> JNull
   \<and> list_all (prepared staff) (docs_of newEmployee)
   \<and> constructor_name (set_schema staff) = ''MigratingSchema''
   \<and> newEmployee \<in> set (docs_of newEmployee)
   \<and> fst (add staff newEmployee empty_store) = Inr stampedEmployee
   \<and> log (snd (add staff newEmployee empty_store)) = [SADD ''staff'' [''employee'']]"
proof -
  let ?ok = "JArr [JStr ''alice'', JStr ''bob'']"
  let ?bad = "JArr [JStr ''alice'', JNum 5]"
  have h1: "?ok \<noteq> JNull" by simp
  have h2: "list_all (prepared names) (docs_of ?ok)"
    by (simp add: docs_of_def prepared_def names_prepare)
  have h3: "constructor_name (set_schema names) \<noteq> ''MigratingSchema''"
    by (simp add: names_def text_schema_def)
  have h4: "fails_validation names (JNum 5)"
    by (simp add: fails_validation_def names_prepare)
  have ms: "map (member_of names) (docs_of ?ok) = [''alice'', ''bob'']"
    by (simp add: docs_of_def member_of_def names_prepare)
  have ex: "expiry_commands names = [EXPIRE ''names'' 60]"
    by (simp add: expiry_commands_def names_def)
  note plain = add_outcome [of names ?ok empty_store, THEN conjunct2, THEN conjunct1,
      THEN mp, OF conjI [OF h1 h2]]
  have r: "fst (add names ?ok empty_store) = Inr ?ok"
    by (rule plain [THEN conjunct2, THEN conjunct2, THEN conjunct1, THEN mp, OF h3])
  have l: "log (snd (add names ?ok empty_store))
              = log empty_store @ [SADD (set_id names) (map (member_of names) (docs_of ?ok))]
                @ expiry_commands names"
    by (rule plain [THEN conjunct2, THEN conjunct1])
  from l have l': "log (snd (add names ?ok empty_store))
                     = [SADD ''names'' [''alice'', ''bob''], EXPIRE ''names'' 60]"
    unfolding ms ex by (simp add: empty_store_def names_def)
  have b: "add names ?bad empty_store
       = (Inl (DocumentValidationError
            ''Can't create new object, schema error: should be string''), empty_store)"
    by (simp add: add_eq names_prepare)
  have d: "docs_of newEmployee = [newEmployee]"
    by (simp add: docs_of_def newEmployee_def)
  have g1: "newEmployee \<noteq> JNull" by (simp add: newEmployee_def)
  have g2: "list_all (prepared staff) (docs_of newEmployee)"
    by (simp add: d prepared_def staff_prepare_newEmployee)
  have g3: "constructor_name (set_schema staff) = ''MigratingSchema''"
    by (simp add: staff_def employee_schema_def MigratingSchema_def)
  have g4: "newEmployee \<in> set (docs_of newEmployee)" by (simp add: d)
  have mo: "member_of staff newEmployee = ''employee''"
    by (simp add: member_of_def staff_prepare_newEmployee)
  have ex': "expiry_commands staff = []" by (simp add: expiry_commands_def staff_def)
  have it: "\<not> isIterable newEmployee" by (simp add: newEmployee_def)
  note versioned = add_outcome [of staff newEmployee empty_store, THEN conjunct2,
      THEN conjunct1, THEN mp, OF conjI [OF g1 g2]]
  from g4 have "JObj [(''firstname'', JStr ''Charles''), (''lastname'', JStr ''Huckbreimer''),
                      (''fullname'', JStr ''Charles Huckbreimer'')] \<in> set (docs_of newEmployee)"
    by (simp add: newEmployee_def)
  from versioned [THEN conjunct2, THEN conjunct2, THEN conjunct2, THEN mp, OF g3, THEN spec,
      THEN mp, OF this]
  have w: "written staff newEmployee = stampedEmployee"
    by (simp add: newEmployee_def stampedEmployee_def id_missing_def staff_def
        employee_schema_def MigratingSchema_def chain_currentVersion_def employeeSchema_def
        addVersion_def)
  from versioned [THEN conjunct1]
  have r2: "fst (add staff newEmployee empty_store) = Inr stampedEmployee"
    by (simp add: it w)
  from versioned [THEN conjunct2, THEN conjunct1]
  have l2: "log (snd (add staff newEmployee empty_store)) = [SADD ''staff'' [''employee'']]"
    unfolding d ex' list.map mo by (simp add: empty_store_def staff_def)
  from h1 h2 h3 r l' h4 b g1 g2 g3 g4 r2 l2 show ?thesis by (intro conjI)
qed

section \<open>modify\<close>

lemma modify_never_rejects:
  "fst (members c st) = Inr list \<Longrightarrow> \<exists>r. fst (modify c changeFn st) = Inr r"
  by (cases "members c st") (simp add: modify_def Let_def)

text \<open>
  C4, at the failing input. The collection of names holds \<open>alice\<close>, and the transform puts
  the number 5 into the working set. The one converging call is \<open>add(5)\<close>, which is
  rejected with the validation error; \<open>modify\<close> resolves all the same, with the two sets,
  having issued no \<open>sadd\<close>.
\<close>

theorem modify_resolves_though_add_rejects:
  "fst (add names (JNum 5) (snd (members names alice_store)))
     = Inl (DocumentValidationError ''Can't create new object, schema error: should be string'')
   \<and> fst (modify names add_five alice_store)
     = Inr \<lparr> original = [(Inl 0, JStr ''alice'')],
             changed = [(Inr 0, JStr ''alice''), (Inr 1, JNum 5)] \<rparr>
   \<and> sets (snd (modify names add_five alice_store)) ''names'' = [''alice'']
   \<and> log (snd (modify names add_five alice_store)) = [SMEMBERS ''names'', EXPIRE ''names'' 60]"
  by (simp add: modify_def members_def smembers_def postpare_def add_eq add_started_def
      prepare_def written_by_add_def written_by_prepare_def
      add_five_def Set_has_def sameValueZero_def refreshExpiry_def expire_def issue_def
      alice_store_def names_def text_schema_def enumerate_eq_zip)

text \<open>
  A second departure from the minimal set of calls: documents that are objects are compared
  by identity, and the working set holds copies, so a transform that changes nothing still
  has every member removed and added again.
\<close>

lemma modify_unchanged_objects_are_touched:
  "fst (modify staff (\<lambda>s. s) staff_store)
     = Inr \<lparr> original = [(Inl 0, stampedUpgradedEmployee)],
             changed = [(Inr 0, stampedUpgradedEmployee)] \<rparr>
   \<and> log (snd (modify staff (\<lambda>s. s) staff_store))
     = [SMEMBERS ''staff'', SREM ''staff'' ''employee'', SADD ''staff'' [''employee'']]"
  by (simp add: modify_def members_def smembers_def postpare_def add_started_def rem_def
      prepare_def written_by_add_def written_by_prepare_def
      stamp_def id_missing_def Set_has_def sameValueZero_def refreshExpiry_def srem_def
      sadd_def issue_def staff_store_def staff_def employee_schema_def MigratingSchema_def
      employee_de_def employee_ser_def chain_upgrade_def chain_isValid_def
      chain_currentVersion_def employeeSchema_def addVersion_def version_of_def
      set_version_def to_v2_def to_v3_def employeeV1_def employeeV2_def employeeV3_def
      is_string_def opt_integer_def template_text_def validEmployee_def upgradedEmployee_def
      stampedUpgradedEmployee_def enumerate_eq_zip)

text \<open>The order of the commands when one member is replaced by two.\<close>

lemma modify_issues_every_sadd_before_the_expiries:
  "log (snd (modify names (\<lambda>s. [(7, JStr ''bob''), (8, JStr ''carol'')]) alice_store))
     = [SMEMBERS ''names'', SREM ''names'' ''alice'', EXPIRE ''names'' 60,
        SADD ''names'' [''bob''], SADD ''names'' [''carol''],
        EXPIRE ''names'' 60, EXPIRE ''names'' 60, EXPIRE ''names'' 60]
   \<and> sets (snd (modify names (\<lambda>s. [(7, JStr ''bob''), (8, JStr ''carol'')]) alice_store))
        ''names'' = [''bob'', ''carol'']"
  by (simp add: modify_def members_def smembers_def postpare_def add_started_def rem_def
      prepare_def written_by_add_def written_by_prepare_def Set_has_def sameValueZero_def
      refreshExpiry_def expire_def srem_def sadd_def issue_def alice_store_def names_def
      text_schema_def enumerate_eq_zip)

end
